theory Spec2Isabelle
  imports Main "HOL-Library.Word"
begin

section \<open>NLCD county animation: a model of \<open>main.py\<close>\<close>

text \<open>
  The program is a short pipeline over four libraries. What the program itself does
  (the year loop, the query and the squeeze of its result, the two masked assignments,
  the palette loop, the fixed file name and encoder arguments) is modelled here as
  executable functions. What the libraries compute from data the program never looks
  into (the remote rasters, polygon rasterisation, coordinate transformation, the bytes
  of the GIF, the parsing of a query with unusual names) is a field of the record
  \<open>world\<close>, so every theorem holds for any behaviour of those calls. Where a library
  raises on what the program hands it (NumPy on a palette entry that does not fit four
  channels, on an empty list of frames and on frames of different shapes), that is part
  of the model. Exceptions are values: a pure computation returns \<open>py_error + 'a\<close>, and
  one with effects returns \<open>Inl\<close> of the exception that ends the run together with the
  state reached when it was raised, or \<open>Inr\<close> of its result and state. Wall-clock
  timing and the status label are left out.
\<close>

subsection \<open>Data\<close>

datatype py_error =
    ValueError
  | TypeError
  | IndexError
  | RasterioIOError
  | FileNotFoundError

type_synonym uint8 = "8 word"

type_synonym crs = string

text \<open>A 2-D integer array is a list of rows, a boolean mask likewise; an RGBA image has
  one list of channel bytes per pixel. A raster window is (col_off, row_off, width, height).\<close>

type_synonym grid = "int list list"
type_synonym mask = "bool list list"
type_synonym image = "uint8 list list list"
type_synonym window = "int \<times> int \<times> int \<times> int"

text \<open>The result of \<open>Series.squeeze()\<close>: a scalar when the series has exactly one element,
  the series itself otherwise.\<close>

datatype 'g squeezed = Scalar 'g | Series "'g list"

text \<open>One row of the layer \<open>USA_adm2\<close>, and the GeoDataFrame holding it: the rows and
  the frame's coordinate reference system (\<open>None\<close> when the frame has none).\<close>

record 'g row =
  NAME_1 :: string
  NAME_2 :: string
  geometry :: 'g

record 'g geodataframe =
  rows :: "'g row list"
  crs :: "crs option"

text \<open>An open rasterio dataset, as far as \<open>main.py\<close> reads it: \<open>src.profile['crs']\<close>,
  \<open>src.nodata\<close> (both may be \<open>None\<close>), \<open>src.colormap(1)\<close> (a dict, here its items in
  iteration order; \<open>None\<close> when band 1 has no colour table, where rasterio raises
  ValueError), and \<open>src.read(1, window=win)\<close>. The sentinel is taken as a value of the
  band's own integer type, so storing it into the array does not change it.\<close>

record dataset =
  profile_crs :: "crs option"
  nodata :: "int option"
  colormap :: "(int \<times> uint8 list) list option"
  read :: "window \<Rightarrow> py_error + grid"

text \<open>The arguments of \<open>imageio.mimsave\<close> besides the path: the AnimatedOutput of the
  specification.\<close>

record animated_output =
  frames :: "image list"
  fps :: nat
  loop :: nat

text \<open>Everything outside the program: the boundary table loaded at import time, the
  rows \<open>DataFrame.query\<close> selects for an expression the model does not interpret itself,
  the remote tile for a year (\<open>rio.open(URL.format(year=y))\<close>; \<open>None\<close> when it cannot be
  opened), \<open>raster_geometry_mask(src, shapes, crop=True, invert=False)\<close> (its second
  result, the affine transform, is never used and is dropped), the coordinate
  transformation of one geometry between two reference systems, and the GIF writer
  behind \<open>mimsave\<close>: the animation the file will hold and the bytes of the file. A writer
  may store fewer frames than it is given (Pillow merges a frame that is identical to its
  predecessor into it).\<close>

record 'g world =
  USA :: "'g geodataframe"
  pandas_query :: "string \<Rightarrow> 'g row list \<Rightarrow> py_error + 'g row list"
  rio_open :: "int \<Rightarrow> dataset option"
  raster_geometry_mask :: "dataset \<Rightarrow> 'g squeezed list \<Rightarrow> py_error + (mask \<times> window)"
  transform_geom :: "crs \<Rightarrow> crs \<Rightarrow> 'g \<Rightarrow> 'g"
  gif_encode :: "animated_output \<Rightarrow> animated_output \<times> uint8 list"

text \<open>The effects of a run: the remote opens that succeeded, the Streamlit calls and the
  call of \<open>mimsave\<close> that wrote its file, in the order they happen, and the files of the
  working directory.\<close>

datatype event =
    Downloading int string
  | RioOpen int
  | PreparingGIF
  | Mimsave string "image list" nat nat
  | Markdown string

record state =
  trace :: "event list"
  files :: "string \<rightharpoonup> uint8 list"

definition emit :: "event \<Rightarrow> state \<Rightarrow> state" where
  "emit e s = s\<lparr>trace := trace s @ [e]\<rparr>"

subsection \<open>Python's \<open>range\<close>\<close>

function range_up :: "int \<Rightarrow> int \<Rightarrow> int \<Rightarrow> int list" where
  "range_up i stop step =
     (if 0 < step \<and> i < stop then i # range_up (i + step) stop step else [])"
  by pat_completeness auto
termination
  by (relation "measure (\<lambda>(i, stop, step). nat (stop - i))") auto

function range_down :: "int \<Rightarrow> int \<Rightarrow> int \<Rightarrow> int list" where
  "range_down i stop step =
     (if step < 0 \<and> stop < i then i # range_down (i + step) stop step else [])"
  by pat_completeness auto
termination
  by (relation "measure (\<lambda>(i, stop, step). nat (i - stop))") auto

declare range_up.simps [simp del]
declare range_down.simps [simp del]

text \<open>\<open>range(start, stop, step)\<close>: ValueError for a zero step, ascending for a positive
  one, descending for a negative one.\<close>

definition range_py :: "int \<Rightarrow> int \<Rightarrow> int \<Rightarrow> py_error + int list" where
  "range_py start stop step =
     (if step = 0 then Inl ValueError
      else if 0 < step then Inr (range_up start stop step)
      else Inr (range_down start stop step))"

subsection \<open>\<open>get_extent\<close>\<close>

text \<open>\<open>USA.query(f'NAME_1 == "{state}" and NAME_2 == "{county}"')\<close>. The expression is
  built by interpolation and parsed by pandas. When both names consist of printable ASCII
  characters other than the double quote and the backslash (\<open>plain\<close>), each sits in the
  expression as one string literal and the expression is the conjunction of the two
  comparisons: the rows with both names are selected. For any other name (a line break
  makes pandas raise ValueError, a double quote changes the expression) the outcome is
  the one the world gives for the interpolated text.\<close>

definition plain :: "string \<Rightarrow> bool" where
  "plain name =
     list_all (\<lambda>c. 32 \<le> (of_char c :: nat) \<and> (of_char c :: nat) \<le> 126
                  \<and> c \<noteq> CHR 0x22 \<and> c \<noteq> CHR 0x5C) name"

definition query_expr :: "string \<Rightarrow> string \<Rightarrow> string" where
  "query_expr state county =
     ''NAME_1 == '' @ [CHR 0x22] @ state @ [CHR 0x22]
       @ '' and NAME_2 == '' @ [CHR 0x22] @ county @ [CHR 0x22]"

definition query ::
  "'g world \<Rightarrow> 'g geodataframe \<Rightarrow> string \<Rightarrow> string \<Rightarrow> py_error + 'g geodataframe" where
  "query W df state county =
     (if plain state \<and> plain county
      then Inr (df\<lparr>rows := filter (\<lambda>r. NAME_1 r = state \<and> NAME_2 r = county) (rows df)\<rparr>)
      else case pandas_query W (query_expr state county) (rows df) of
             Inl e \<Rightarrow> Inl e
           | Inr selected \<Rightarrow> Inr (df\<lparr>rows := selected\<rparr>))"

text \<open>\<open>GeoDataFrame.to_crs\<close>: ValueError when the frame has no reference system or none is
  given, otherwise every geometry is transformed.\<close>

definition to_crs ::
  "(crs \<Rightarrow> crs \<Rightarrow> 'g \<Rightarrow> 'g) \<Rightarrow> 'g geodataframe \<Rightarrow> crs option \<Rightarrow> py_error + 'g geodataframe" where
  "to_crs tr df target =
     (case crs df of
        None \<Rightarrow> Inl ValueError
      | Some c \<Rightarrow>
          (case target of
             None \<Rightarrow> Inl ValueError
           | Some t \<Rightarrow>
               Inr (df\<lparr>rows := map (\<lambda>r. r\<lparr>geometry := tr c t (geometry r)\<rparr>) (rows df),
                       crs := Some t\<rparr>)))"

fun squeeze :: "'g list \<Rightarrow> 'g squeezed" where
  "squeeze [g] = Scalar g"
| "squeeze gs = Series gs"

definition get_extent ::
  "'g world \<Rightarrow> state \<Rightarrow> string \<Rightarrow> string \<Rightarrow> py_error \<times> state + 'g squeezed \<times> state" where
  "get_extent W s state county =
     (case rio_open W 1985 of
        None \<Rightarrow> Inl (RasterioIOError, s)
      | Some src \<Rightarrow>
          (case query W (USA W) state county of
             Inl e \<Rightarrow> Inl (e, emit (RioOpen 1985) s)
           | Inr matches \<Rightarrow>
               (case to_crs (transform_geom W) matches (profile_crs src) of
                  Inl e \<Rightarrow> Inl (e, emit (RioOpen 1985) s)
                | Inr df \<Rightarrow> Inr (squeeze (map geometry (rows df)), emit (RioOpen 1985) s))))"

subsection \<open>The clipper (lines 55 to 59 of \<open>main\<close>)\<close>

text \<open>\<open>data[mask] = src.nodata\<close> with a boolean mask of the array's own rank: IndexError
  when the shapes differ, TypeError when the value is \<open>None\<close>, otherwise the cells under a
  \<open>True\<close> flag receive the value and the others keep theirs.\<close>

definition masked_assign :: "grid \<Rightarrow> mask \<Rightarrow> int option \<Rightarrow> py_error + grid" where
  "masked_assign data m v =
     (if map length m \<noteq> map length data then Inl IndexError
      else case v of
             None \<Rightarrow> Inl TypeError
           | Some nd \<Rightarrow> Inr (map2 (\<lambda>drow mrow. map2 (\<lambda>x b. if b then nd else x) drow mrow) data m))"

definition clip :: "'g world \<Rightarrow> dataset \<Rightarrow> 'g squeezed \<Rightarrow> py_error + grid" where
  "clip W src extent =
     (case raster_geometry_mask W src [extent] of
        Inl e \<Rightarrow> Inl e
      | Inr (m, win) \<Rightarrow>
          (case read src win of
             Inl e \<Rightarrow> Inl e
           | Inr data \<Rightarrow> masked_assign data m (nodata src)))"

subsection \<open>The recolorer (lines 62 to 64 of \<open>main\<close>)\<close>

definition zeros :: "grid \<Rightarrow> image" where
  "zeros data = map (map (\<lambda>_. [0, 0, 0, 0])) data"

text \<open>Broadcasting a sequence of channel values to the four channels of the selected
  pixels: four values fit, a single value is repeated, any other length is a shape
  mismatch (ValueError), whether or not a pixel is selected.\<close>

fun broadcast4 :: "uint8 list \<Rightarrow> py_error + uint8 list" where
  "broadcast4 [a] = Inr [a, a, a, a]"
| "broadcast4 [a, b, c, d] = Inr [a, b, c, d]"
| "broadcast4 v = Inl ValueError"

text \<open>\<open>rgb_image[data == cls] = value\<close>.\<close>

definition assign_where :: "image \<Rightarrow> grid \<Rightarrow> int \<Rightarrow> uint8 list \<Rightarrow> py_error + image" where
  "assign_where img data cls v =
     (case broadcast4 v of
        Inl e \<Rightarrow> Inl e
      | Inr px \<Rightarrow> Inr (map2 (\<lambda>irow drow. map2 (\<lambda>p x. if x = cls then px else p) irow drow) img data))"

text \<open>\<open>for cls, rgb in src.colormap(1).items(): rgb_image[data == cls] = rgb[:4]\<close>.\<close>

fun palette_loop :: "(int \<times> uint8 list) list \<Rightarrow> grid \<Rightarrow> image \<Rightarrow> py_error + image" where
  "palette_loop [] data img = Inr img"
| "palette_loop ((cls, rgb) # items) data img =
     (case assign_where img data cls (take 4 rgb) of
        Inl e \<Rightarrow> Inl e
      | Inr img' \<Rightarrow> palette_loop items data img')"

definition recolor_with :: "(int \<times> uint8 list) list \<Rightarrow> grid \<Rightarrow> py_error + image" where
  "recolor_with items data = palette_loop items data (zeros data)"

definition recolor :: "dataset \<Rightarrow> grid \<Rightarrow> py_error + image" where
  "recolor src data =
     (case colormap src of
        None \<Rightarrow> Inl ValueError
      | Some items \<Rightarrow> recolor_with items data)"

subsection \<open>One iteration and the loop of \<open>main\<close>\<close>

definition process_year ::
  "'g world \<Rightarrow> string \<Rightarrow> string \<Rightarrow> int \<Rightarrow> state \<times> image list
     \<Rightarrow> py_error \<times> state + state \<times> image list" where
  "process_year W state county year acc =
     (case acc of (s, images) \<Rightarrow>
        (case rio_open W year of
           None \<Rightarrow> Inl (RasterioIOError, emit (Downloading year county) s)
         | Some src \<Rightarrow>
             (case get_extent W (emit (RioOpen year) (emit (Downloading year county) s)) state county of
                Inl failure \<Rightarrow> Inl failure
              | Inr (extent, s') \<Rightarrow>
                  (case clip W src extent of
                     Inl e \<Rightarrow> Inl (e, s')
                   | Inr data \<Rightarrow>
                       (case recolor src data of
                          Inl e \<Rightarrow> Inl (e, s')
                        | Inr rgb_image \<Rightarrow> Inr (s', images @ [rgb_image]))))))"

fun years_loop ::
  "'g world \<Rightarrow> string \<Rightarrow> string \<Rightarrow> int list \<Rightarrow> state \<times> image list
     \<Rightarrow> py_error \<times> state + state \<times> image list" where
  "years_loop W state county [] acc = Inr acc"
| "years_loop W state county (year # years) acc =
     (case process_year W state county year acc of
        Inl failure \<Rightarrow> Inl failure
      | Inr acc' \<Rightarrow> years_loop W state county years acc')"

subsection \<open>Saving and showing the animation\<close>

text \<open>The shape of an image array, and whether all frames of a list have the shape of
  the first.\<close>

definition image_shape :: "image \<Rightarrow> nat list list" where
  "image_shape img = map (map length) img"

fun same_shapes :: "image list \<Rightarrow> bool" where
  "same_shapes [] = True"
| "same_shapes (first # others) = list_all (\<lambda>img. image_shape img = image_shape first) others"

text \<open>\<open>imageio.mimsave(path, images, fps=f, loop=l)\<close>. The frames are first stacked into
  one array (\<open>numpy.stack\<close>), which raises ValueError for an empty list and for frames of
  different shapes, before the file is opened; then the writer encodes them, and its
  bytes are stored under the path. Failures of the file system are left out.\<close>

definition mimsave ::
  "'g world \<Rightarrow> string \<Rightarrow> image list \<Rightarrow> nat \<Rightarrow> nat \<Rightarrow> state \<Rightarrow> py_error \<times> state + state" where
  "mimsave W path images f l s =
     (if images = [] then Inl (ValueError, s)
      else if \<not> same_shapes images then Inl (ValueError, s)
      else case gif_encode W \<lparr>frames = images, fps = f, loop = l\<rparr> of
             (held, bytes) \<Rightarrow>
               Inr ((emit (Mimsave path images f l) s)\<lparr>files := (files s)(path \<mapsto> bytes)\<rparr>))"

definition b64_alphabet :: string where
  "b64_alphabet = ''ABCDEFGHIJKLMNOPQRSTUVWXYZabcdefghijklmnopqrstuvwxyz0123456789+/''"

definition b64_char :: "nat \<Rightarrow> char" where
  "b64_char n = b64_alphabet ! (n mod 64)"

fun b64encode :: "uint8 list \<Rightarrow> string" where
  "b64encode (a # b # c # rest) =
     (let n = unat a * 65536 + unat b * 256 + unat c
      in [b64_char (n div 262144), b64_char (n div 4096), b64_char (n div 64), b64_char n]
         @ b64encode rest)"
| "b64encode [a, b] =
     (let n = unat a * 65536 + unat b * 256
      in [b64_char (n div 262144), b64_char (n div 4096), b64_char (n div 64), CHR ''=''])"
| "b64encode [a] =
     (let n = unat a * 65536
      in [b64_char (n div 262144), b64_char (n div 4096), CHR ''='', CHR ''=''])"
| "b64encode [] = []"

text \<open>Reading base64 text back: the position of a character in the alphabet, and the bytes
  of each group of four characters.\<close>

fun b64_value_in :: "string \<Rightarrow> char \<Rightarrow> nat" where
  "b64_value_in [] c = 0"
| "b64_value_in (x # alphabet) c = (if x = c then 0 else Suc (b64_value_in alphabet c))"

definition b64_value :: "char \<Rightarrow> nat" where
  "b64_value c = b64_value_in b64_alphabet c"

fun b64decode :: "string \<Rightarrow> uint8 list" where
  "b64decode (a # b # c # d # rest) =
     (if c = CHR ''='' then
        [of_nat ((b64_value a * 64 + b64_value b) div 16)]
      else if d = CHR ''='' then
        (let n = b64_value a * 4096 + b64_value b * 64 + b64_value c
         in [of_nat (n div 1024), of_nat (n div 4 mod 256)])
      else
        (let n = b64_value a * 262144 + b64_value b * 4096 + b64_value c * 64 + b64_value d
         in [of_nat (n div 65536), of_nat (n div 256 mod 256), of_nat (n mod 256)]
            @ b64decode rest))"
| "b64decode text = []"

definition img_tag :: "string \<Rightarrow> string" where
  "img_tag data_url =
     ''<img src='' @ [CHR 0x22] @ ''data:image/gif;base64,'' @ data_url @ [CHR 0x22]
       @ '' width=60% height=60%>''"

text \<open>Lines 67 to 83: the file is written by \<open>mimsave\<close>, then opened again and its
  contents shown.\<close>

definition save_and_show :: "'g world \<Rightarrow> image list \<Rightarrow> state \<Rightarrow> py_error \<times> state + state" where
  "save_and_show W images s =
     (case mimsave W ''nlcd.gif'' images 4 0 (emit PreparingGIF s) of
        Inl failure \<Rightarrow> Inl failure
      | Inr s' \<Rightarrow>
          (case files s' ''nlcd.gif'' of
             None \<Rightarrow> Inl (FileNotFoundError, s')
           | Some contents \<Rightarrow> Inr (emit (Markdown (img_tag (b64encode contents))) s')))"

subsection \<open>\<open>main\<close>\<close>

definition main ::
  "'g world \<Rightarrow> state \<Rightarrow> int \<Rightarrow> int \<Rightarrow> int \<Rightarrow> string \<Rightarrow> string \<Rightarrow> py_error \<times> state + state" where
  "main W s start stop step state county =
     (case range_py start stop step of
        Inl e \<Rightarrow> Inl (e, s)
      | Inr years \<Rightarrow>
          (case years_loop W state county years (s, []) of
             Inl failure \<Rightarrow> Inl failure
           | Inr (s', images) \<Rightarrow> save_and_show W images s'))"

subsection \<open>Concrete worlds\<close>

text \<open>A small world on which the functions above can be run: a boundary table with one
  Travis county and two rows named Richmond in Virginia, the same 2 by 2 tile with three
  palette entries for every year from 1985 to 2023, a mask that flags the top right
  pixel as outside, a coordinate transformation that shifts by one, and a writer that,
  as Pillow does, merges a frame identical to its predecessor into it and returns a
  header followed by the number of frames it stored. Expressions the model does not
  interpret raise ValueError there.\<close>

definition initial_state :: state where
  "initial_state = \<lparr>trace = [], files = Map.empty\<rparr>"

definition fixture_USA :: "(int \<times> int) list geodataframe" where
  "fixture_USA =
     \<lparr>rows =
        [\<lparr>NAME_1 = ''Texas'', NAME_2 = ''Travis'', geometry = [(0, 0), (2, 0), (2, 2)]\<rparr>,
         \<lparr>NAME_1 = ''Virginia'', NAME_2 = ''Richmond'', geometry = [(5, 5), (6, 5), (6, 6)]\<rparr>,
         \<lparr>NAME_1 = ''Virginia'', NAME_2 = ''Richmond'', geometry = [(7, 7), (8, 7), (8, 8)]\<rparr>],
      crs = Some ''EPSG:4326''\<rparr>"

definition fixture_tile :: dataset where
  "fixture_tile =
     \<lparr>profile_crs = Some ''EPSG:5070'',
      nodata = Some 250,
      colormap = Some [(11, [70, 107, 159, 255]), (21, [222, 197, 197, 255]), (250, [0, 0, 0, 0])],
      read = (\<lambda>win. Inr [[11, 21], [21, 11]])\<rparr>"

definition fixture_mask ::
  "dataset \<Rightarrow> (int \<times> int) list squeezed list \<Rightarrow> py_error + (mask \<times> window)" where
  "fixture_mask src shapes =
     (case shapes of
        [Scalar g] \<Rightarrow> Inr ([[False, True], [False, False]], (0, 0, 2, 2))
      | _ \<Rightarrow> Inl ValueError)"

definition fixture_encode :: "animated_output \<Rightarrow> animated_output \<times> uint8 list" where
  "fixture_encode out =
     (out\<lparr>frames := remdups_adj (frames out)\<rparr>,
      [71, 73, 70, of_nat (length (remdups_adj (frames out)))])"

definition fixture :: "(int \<times> int) list world" where
  "fixture =
     \<lparr>USA = fixture_USA,
      pandas_query = (\<lambda>expr selected. Inl ValueError),
      rio_open = (\<lambda>year. if 1985 \<le> year \<and> year \<le> 2023 then Some fixture_tile else None),
      raster_geometry_mask = fixture_mask,
      transform_geom = (\<lambda>c t g. map (\<lambda>(x, y). (x + 1, y + 1)) g),
      gif_encode = fixture_encode\<rparr>"

text \<open>The same world with land cover that changes: from 1990 on the bottom right pixel
  of the tile has class 21.\<close>

definition changing :: "(int \<times> int) list world" where
  "changing =
     fixture
       \<lparr>rio_open :=
          (\<lambda>year. if 1985 \<le> year \<and> year \<le> 2023
                  then Some (if year < 1990 then fixture_tile
                             else fixture_tile\<lparr>read := (\<lambda>win. Inr [[11, 21], [21, 21]])\<rparr>)
                  else None)\<rparr>"

text \<open>A world in which the reference system matters: only the 1985 tile is in EPSG:5070,
  the tiles of the other years are in EPSG:3857; the transformation shifts by one into
  EPSG:5070 and leaves a geometry as it is otherwise; and the mask flags only the top
  right pixel for the shifted Travis boundary and every pixel for any other geometry.\<close>

definition drifting :: "(int \<times> int) list world" where
  "drifting =
     fixture
       \<lparr>rio_open :=
          (\<lambda>year. if year = 1985 then Some fixture_tile
                  else if 1985 < year \<and> year \<le> 2023
                  then Some (fixture_tile\<lparr>profile_crs := Some ''EPSG:3857''\<rparr>)
                  else None),
        raster_geometry_mask :=
          (\<lambda>src shapes.
             if shapes = [Scalar [(1, 1), (3, 1), (3, 3)]]
             then Inr ([[False, True], [False, False]], (0, 0, 2, 2))
             else Inr ([[True, True], [True, True]], (0, 0, 2, 2))),
        transform_geom :=
          (\<lambda>c t g. if t = ''EPSG:5070'' then map (\<lambda>(x, y). (x + 1, y + 1)) g else g)\<rparr>"

text \<open>The same world without a network: no tile can be opened.\<close>

definition offline :: "(int \<times> int) list world" where
  "offline = fixture\<lparr>rio_open := (\<lambda>year. None)\<rparr>"

text \<open>A world whose tiles differ in size: the tile of 1993 is one pixel wider than the
  others, and the mask has the shape of the tile and flags nothing.\<close>

definition uneven :: "(int \<times> int) list world" where
  "uneven =
     fixture
       \<lparr>rio_open :=
          (\<lambda>year. if year = 1993 then Some (fixture_tile\<lparr>read := (\<lambda>win. Inr [[11, 21]])\<rparr>)
                  else Some (fixture_tile\<lparr>read := (\<lambda>win. Inr [[11]])\<rparr>)),
        raster_geometry_mask :=
          (\<lambda>src shapes.
             case read src (0, 0, 0, 0) of
               Inl e \<Rightarrow> Inl e
             | Inr data \<Rightarrow> Inr (map (map (\<lambda>x. False)) data, (0, 0, 0, 0)))\<rparr>"

text \<open>A tile whose palette has an entry of three values and one whose palette has an
  entry of a single value.\<close>

definition rgb_tile :: dataset where
  "rgb_tile = fixture_tile\<lparr>colormap := Some [(11, [70, 107, 159])]\<rparr>"

definition grey_tile :: dataset where
  "grey_tile = fixture_tile\<lparr>colormap := Some [(11, [70]), (21, [222, 197, 197, 255])]\<rparr>"

text \<open>A working directory that already holds an animation of an earlier run and the
  legend image.\<close>

definition used_state :: state where
  "used_state =
     \<lparr>trace = [], files = [''nlcd.gif'' \<mapsto> [1, 2, 3], ''legend.jpg'' \<mapsto> [255, 216]]\<rparr>"

section \<open>Boundary resolution\<close>

lemma squeeze_other: "length gs \<noteq> 1 \<Longrightarrow> squeeze gs = Series gs"
  by (cases gs rule: squeeze.cases) simp_all

lemma query_plain:
  "plain state \<Longrightarrow> plain county \<Longrightarrow>
   query W df state county
     = Inr (df\<lparr>rows := filter (\<lambda>r. NAME_1 r = state \<and> NAME_2 r = county) (rows df)\<rparr>)"
  by (simp add: query_def)

text \<open>
  C1, as amended. For names of printable ASCII characters without double quote and
  backslash, and when the 1985 tile opens and both reference systems are known,
  \<open>get_extent\<close> never fails: with exactly one matching row it returns that row's geometry
  transformed into the reference system of the 1985 tile, and with no or several
  matching rows it returns the series of all matching geometries, transformed, without
  raising an exception.
\<close>

theorem get_extent_squeezes:
  assumes "plain state" and "plain county"
    and "rio_open W 1985 = Some src" and "profile_crs src = Some t" and "crs (USA W) = Some c"
  shows "\<exists>ext. get_extent W s state county = Inr (ext, emit (RioOpen 1985) s) \<and>
           (\<forall>r. filter (\<lambda>r. NAME_1 r = state \<and> NAME_2 r = county) (rows (USA W)) = [r]
                \<longrightarrow> ext = Scalar (transform_geom W c t (geometry r))) \<and>
           (length (filter (\<lambda>r. NAME_1 r = state \<and> NAME_2 r = county) (rows (USA W))) \<noteq> 1
                \<longrightarrow> ext = Series (map (\<lambda>r. transform_geom W c t (geometry r))
                       (filter (\<lambda>r. NAME_1 r = state \<and> NAME_2 r = county) (rows (USA W)))))"
proof -
  have q: "query W (USA W) state county
     = Inr ((USA W)\<lparr>rows := filter (\<lambda>r. NAME_1 r = state \<and> NAME_2 r = county) (rows (USA W))\<rparr>)"
    using assms(1,2) by (rule query_plain)
  show ?thesis
    using assms(3-5)
    by (auto simp: get_extent_def q to_crs_def o_def squeeze_other)
qed

text \<open>The theorem at Travis, Texas (one row) and at Richmond, Virginia (two rows).\<close>

theorem get_extent_squeezes_witness:
  "plain ''Texas'' \<and> plain ''Travis'' \<and> plain ''Virginia'' \<and> plain ''Richmond''
   \<and> rio_open fixture 1985 = Some fixture_tile
   \<and> profile_crs fixture_tile = Some ''EPSG:5070''
   \<and> crs (USA fixture) = Some ''EPSG:4326''
   \<and> get_extent fixture initial_state ''Texas'' ''Travis''
       = Inr (Scalar [(1, 1), (3, 1), (3, 3)], emit (RioOpen 1985) initial_state)
   \<and> get_extent fixture initial_state ''Virginia'' ''Richmond''
       = Inr (Series [[(6, 6), (7, 6), (7, 7)], [(8, 8), (9, 8), (9, 9)]],
              emit (RioOpen 1985) initial_state)"
proof -
  have p: "plain ''Texas''" "plain ''Travis''" "plain ''Virginia''" "plain ''Richmond''"
    by (simp_all add: plain_def)
  have o: "rio_open fixture 1985 = Some fixture_tile"
    by (simp add: fixture_def)
  have t: "profile_crs fixture_tile = Some ''EPSG:5070''"
    by (simp add: fixture_tile_def)
  have c: "crs (USA fixture) = Some ''EPSG:4326''"
    by (simp add: fixture_def fixture_USA_def)
  have one: "filter (\<lambda>r. NAME_1 r = ''Texas'' \<and> NAME_2 r = ''Travis'') (rows (USA fixture))
      = [\<lparr>NAME_1 = ''Texas'', NAME_2 = ''Travis'', geometry = [(0, 0), (2, 0), (2, 2)]\<rparr>]"
    by (simp add: fixture_def fixture_USA_def)
  have two: "filter (\<lambda>r. NAME_1 r = ''Virginia'' \<and> NAME_2 r = ''Richmond'') (rows (USA fixture))
      = [\<lparr>NAME_1 = ''Virginia'', NAME_2 = ''Richmond'', geometry = [(5, 5), (6, 5), (6, 6)]\<rparr>,
         \<lparr>NAME_1 = ''Virginia'', NAME_2 = ''Richmond'', geometry = [(7, 7), (8, 7), (8, 8)]\<rparr>]"
    by (simp add: fixture_def fixture_USA_def)
  have tr: "transform_geom fixture = (\<lambda>c t g. map (\<lambda>(x, y). (x + 1, y + 1)) g)"
    by (simp add: fixture_def)
  from get_extent_squeezes [OF p(1) p(2) o t c, of initial_state]
  have a: "get_extent fixture initial_state ''Texas'' ''Travis''
       = Inr (Scalar [(1, 1), (3, 1), (3, 3)], emit (RioOpen 1985) initial_state)"
    unfolding one by (auto simp: tr)
  from get_extent_squeezes [OF p(3) p(4) o t c, of initial_state]
  have b: "get_extent fixture initial_state ''Virginia'' ''Richmond''
       = Inr (Series [[(6, 6), (7, 6), (7, 7)], [(8, 8), (9, 8), (9, 9)]],
              emit (RioOpen 1985) initial_state)"
    unfolding two by (auto simp: tr)
  from p o t c a b show ?thesis by simp
qed

text \<open>C1 as stated fails: with no matching row, and with two, \<open>get_extent\<close> returns a
  series instead of raising NotFoundError or AmbiguousMatchError.\<close>

theorem get_extent_no_error_counterexample:
  "get_extent fixture initial_state ''Texas'' ''Atlantis''
     = Inr (Series [], emit (RioOpen 1985) initial_state)
   \<and> get_extent fixture initial_state ''Virginia'' ''Richmond''
     = Inr (Series [[(6, 6), (7, 6), (7, 7)], [(8, 8), (9, 8), (9, 9)]],
            emit (RioOpen 1985) initial_state)"
  by (simp add: get_extent_def fixture_def fixture_USA_def fixture_tile_def to_crs_def query_def
        plain_def)

section \<open>Clipping\<close>

lemma same_shape_length: "map length a = map length b \<Longrightarrow> length a = length b"
  by (rule map_eq_imp_length_eq)

lemma same_shape_row:
  assumes "map length a = map length b" and "i < length b"
  shows "length (a ! i) = length (b ! i)"
proof -
  have "length a = length b" using assms(1) by (rule map_eq_imp_length_eq)
  with assms(2) have "map length a ! i = length (a ! i)" "map length b ! i = length (b ! i)"
    by simp_all
  with assms(1) show ?thesis by simp
qed

lemma map2_rows_shape:
  assumes "map length a = map length b"
  shows "map length (map2 (\<lambda>r1 r2. map2 f r1 r2) a b) = map length b"
proof (rule nth_equalityI)
  show "length (map length (map2 (\<lambda>r1 r2. map2 f r1 r2) a b)) = length (map length b)"
    using same_shape_length [OF assms] by simp
next
  fix i assume "i < length (map length (map2 (\<lambda>r1 r2. map2 f r1 r2) a b))"
  then have i: "i < length a" "i < length b"
    by simp_all
  then show "map length (map2 (\<lambda>r1 r2. map2 f r1 r2) a b) ! i = map length b ! i"
    using same_shape_row [OF assms i(2)] by simp
qed

lemma map2_rows_nth:
  assumes "map length a = map length b" and "i < length b" and "j < length (b ! i)"
  shows "map2 (\<lambda>r1 r2. map2 f r1 r2) a b ! i ! j = f (a ! i ! j) (b ! i ! j)"
proof -
  have "i < length a" using same_shape_length [OF assms(1)] assms(2) by simp
  moreover have "j < length (a ! i)" using same_shape_row [OF assms(1,2)] assms(3) by simp
  ultimately show ?thesis using assms(2,3) by simp
qed

lemma grid_eqI:
  assumes "map length a = map length b"
    and "\<And>i j. i < length b \<Longrightarrow> j < length (b ! i) \<Longrightarrow> a ! i ! j = b ! i ! j"
  shows "a = b"
proof (rule nth_equalityI)
  show "length a = length b" using assms(1) by (rule same_shape_length)
next
  fix i assume "i < length a"
  then have i: "i < length b" using same_shape_length [OF assms(1)] by simp
  show "a ! i = b ! i"
  proof (rule nth_equalityI)
    show "length (a ! i) = length (b ! i)" using assms(1) i by (rule same_shape_row)
  next
    fix j assume "j < length (a ! i)"
    then have "j < length (b ! i)" using same_shape_row [OF assms(1) i] by simp
    with i show "a ! i ! j = b ! i ! j" by (rule assms(2))
  qed
qed

lemma masked_assign_Inr:
  assumes "masked_assign data m v = Inr out"
  shows "\<exists>nd. v = Some nd \<and> map length m = map length data \<and> map length out = map length data \<and>
           (\<forall>i<length data. \<forall>j<length (data ! i).
              out ! i ! j = (if m ! i ! j then nd else data ! i ! j))"
proof -
  from assms have shape: "map length m = map length data"
    by (auto simp: masked_assign_def split: if_splits)
  from assms obtain nd where v: "v = Some nd"
    by (auto simp: masked_assign_def split: if_splits option.splits)
  from assms shape v
  have out: "out = map2 (\<lambda>drow mrow. map2 (\<lambda>x b. if b then nd else x) drow mrow) data m"
    by (simp add: masked_assign_def)
  have s1: "map length out = map length m"
    unfolding out using shape [symmetric] by (rule map2_rows_shape)
  have cells: "out ! i ! j = (if m ! i ! j then nd else data ! i ! j)"
    if "i < length data" "j < length (data ! i)" for i j
  proof -
    have "i < length m" using same_shape_length [OF shape] that(1) by simp
    moreover have "j < length (m ! i)" using same_shape_row [OF shape that(1)] that(2) by simp
    ultimately show ?thesis
      unfolding out using shape [symmetric] by (simp add: map2_rows_nth)
  qed
  from v shape s1 cells show ?thesis by auto
qed

lemma masked_assign_again:
  assumes "masked_assign data m (Some nd) = Inr out"
  shows "masked_assign out m (Some nd) = Inr out"
proof -
  from masked_assign_Inr [OF assms]
  have shape: "map length m = map length data" and s1: "map length out = map length data"
    and cells: "\<And>i j. i < length data \<Longrightarrow> j < length (data ! i) \<Longrightarrow>
                  out ! i ! j = (if m ! i ! j then nd else data ! i ! j)"
    by auto
  have s2: "map length out = map length m" using shape s1 by simp
  have "map2 (\<lambda>drow mrow. map2 (\<lambda>x b. if b then nd else x) drow mrow) out m = out"
  proof (rule grid_eqI)
    show "map length (map2 (\<lambda>drow mrow. map2 (\<lambda>x b. if b then nd else x) drow mrow) out m)
            = map length out"
      using map2_rows_shape [OF s2] s2 by simp
  next
    fix i j assume ij: "i < length out" "j < length (out ! i)"
    have i: "i < length m" "i < length data"
      using ij(1) same_shape_length [OF s2] same_shape_length [OF s1] by simp_all
    have j: "j < length (m ! i)" "j < length (data ! i)"
      using ij(2) same_shape_row [OF s2 i(1)] same_shape_row [OF s1 i(2)] by simp_all
    show "map2 (\<lambda>drow mrow. map2 (\<lambda>x b. if b then nd else x) drow mrow) out m ! i ! j = out ! i ! j"
      by (simp add: map2_rows_nth [OF s2 i(1) j(1)] cells [OF i(2) j(2)])
  qed
  then show ?thesis using s2 by (simp add: masked_assign_def)
qed

text \<open>
  C2. Whenever the clipper returns a grid, the library call gave a mask and a window, the
  windowed read gave data of the mask's shape, and the source has a sentinel; every
  pixel the mask flags (with \<open>invert=False\<close>: the pixels outside the boundary) holds the
  sentinel, every other pixel holds its value from the windowed read, and masking the
  result again with the same mask changes nothing.
\<close>

theorem clip_masks_outside:
  assumes "clip W src extent = Inr out"
  shows "\<exists>m win data nd.
           raster_geometry_mask W src [extent] = Inr (m, win) \<and>
           read src win = Inr data \<and>
           nodata src = Some nd \<and>
           map length m = map length data \<and>
           map length out = map length data \<and>
           (\<forall>i<length data. \<forall>j<length (data ! i).
              out ! i ! j = (if m ! i ! j then nd else data ! i ! j)) \<and>
           masked_assign out m (nodata src) = Inr out"
proof -
  from assms obtain m win data where
    mk: "raster_geometry_mask W src [extent] = Inr (m, win)" and
    rd: "read src win = Inr data" and
    ma: "masked_assign data m (nodata src) = Inr out"
    by (auto simp: clip_def split: sum.splits)
  from masked_assign_Inr [OF ma] obtain nd where
    nd: "nodata src = Some nd" and
    rest: "map length m = map length data" "map length out = map length data"
      "\<forall>i<length data. \<forall>j<length (data ! i). out ! i ! j = (if m ! i ! j then nd else data ! i ! j)"
    by auto
  from ma nd have "masked_assign out m (nodata src) = Inr out"
    by (simp add: masked_assign_again)
  with mk rd nd rest show ?thesis by blast
qed

text \<open>The theorem on the 2 by 2 tile, whose top right pixel is outside.\<close>

theorem clip_masks_outside_witness:
  "clip fixture fixture_tile (Scalar [(1, 1), (3, 1), (3, 3)]) = Inr [[11, 250], [21, 11]]
   \<and> raster_geometry_mask fixture fixture_tile [Scalar [(1, 1), (3, 1), (3, 3)]]
       = Inr ([[False, True], [False, False]], (0, 0, 2, 2))
   \<and> read fixture_tile (0, 0, 2, 2) = Inr [[11, 21], [21, 11]]
   \<and> nodata fixture_tile = Some 250
   \<and> masked_assign [[11, 250], [21, 11]] [[False, True], [False, False]] (Some 250)
       = Inr [[11, 250], [21, 11]]"
proof -
  have run: "clip fixture fixture_tile (Scalar [(1, 1), (3, 1), (3, 3)]) = Inr [[11, 250], [21, 11]]"
    by (simp add: clip_def fixture_def fixture_mask_def fixture_tile_def masked_assign_def)
  have mk: "raster_geometry_mask fixture fixture_tile [Scalar [(1, 1), (3, 1), (3, 3)]]
       = Inr ([[False, True], [False, False]], (0, 0, 2, 2))"
    by (simp add: fixture_def fixture_mask_def)
  have rd: "read fixture_tile (0, 0, 2, 2) = Inr [[11, 21], [21, 11]]"
    and nd: "nodata fixture_tile = Some 250"
    by (simp_all add: fixture_tile_def)
  from clip_masks_outside [OF run] obtain m win data v where
    "raster_geometry_mask fixture fixture_tile [Scalar [(1, 1), (3, 1), (3, 3)]] = Inr (m, win)"
    "nodata fixture_tile = Some v"
    "masked_assign [[11, 250], [21, 11]] m (nodata fixture_tile) = Inr [[11, 250], [21, 11]]"
    by blast
  with mk nd have "masked_assign [[11, 250], [21, 11]] [[False, True], [False, False]] (Some 250)
       = Inr [[11, 250], [21, 11]]"
    by simp
  with run mk rd nd show ?thesis by simp
qed

section \<open>Recoloring\<close>

lemma broadcast4_four: "4 \<le> length v \<Longrightarrow> broadcast4 (take 4 v) = Inr (take 4 v)"
proof -
  assume "4 \<le> length v"
  then obtain a b c d rest where "v = a # b # c # d # rest"
    by (auto simp: numeral_eq_Suc Suc_le_length_iff)
  then show ?thesis by simp
qed

lemma broadcast4_one: "length v = 1 \<Longrightarrow> broadcast4 (take 4 v) = Inr (replicate 4 (v ! 0))"
proof -
  assume "length v = 1"
  then obtain a where "v = [a]"
    by (auto simp: length_Suc_conv)
  then show ?thesis by (simp add: numeral_eq_Suc)
qed

lemma broadcast4_short:
  assumes "length v < 4" and "length v \<noteq> 1"
  shows "broadcast4 (take 4 v) = Inl ValueError"
proof -
  from assms(1) have "take 4 v = v" by simp
  moreover from assms have "broadcast4 v = Inl ValueError"
    by (cases v rule: broadcast4.cases) simp_all
  ultimately show ?thesis by simp
qed

lemma broadcast4_error: "broadcast4 v = Inl e \<Longrightarrow> e = ValueError"
  by (cases v rule: broadcast4.cases) simp_all

lemma assign_where_error: "assign_where img data cls v = Inl e \<Longrightarrow> e = ValueError"
  by (auto simp: assign_where_def split: sum.splits dest: broadcast4_error)

lemma palette_loop_short:
  assumes "(cls, rgb) \<in> set items" and "length rgb < 4" and "length rgb \<noteq> 1"
  shows "palette_loop items data img = Inl ValueError"
  using assms(1)
proof (induction items arbitrary: img)
  case Nil
  then show ?case by simp
next
  case (Cons item items)
  obtain c v where item: "item = (c, v)" by (cases item)
  show ?case
  proof (cases "assign_where img data c (take 4 v)")
    case (Inl e)
    with item show ?thesis by (auto dest: assign_where_error)
  next
    case (Inr img')
    have "item \<noteq> (cls, rgb)"
    proof
      assume "item = (cls, rgb)"
      with item Inr have "assign_where img data cls (take 4 rgb) = Inr img'" by simp
      moreover have "broadcast4 (take 4 rgb) = Inl ValueError"
        using assms(2,3) by (rule broadcast4_short)
      ultimately show False
        by (simp only: assign_where_def sum.case sum.distinct)
    qed
    with Cons.prems have "(cls, rgb) \<in> set items" by simp
    then have "palette_loop items data img' = Inl ValueError" by (rule Cons.IH)
    with item Inr show ?thesis by simp
  qed
qed

text \<open>What the palette loop leaves at every pixel, when each entry has one value or at
  least four.\<close>

lemma palette_loop_pixels:
  assumes "distinct (map fst items)"
    and "\<forall>(c, v) \<in> set items. length v = 1 \<or> 4 \<le> length v"
    and "map length img = map length data"
  shows "\<exists>img'. palette_loop items data img = Inr img' \<and> map length img' = map length data \<and>
           (\<forall>i<length data. \<forall>j<length (data ! i).
              img' ! i ! j =
                (case map_of items (data ! i ! j) of
                   None \<Rightarrow> img ! i ! j
                 | Some v \<Rightarrow> if length v = 1 then replicate 4 (v ! 0) else take 4 v))"
  using assms
proof (induction items arbitrary: img)
  case Nil
  then show ?case by simp
next
  case (Cons item items)
  obtain cls rgb where item: "item = (cls, rgb)" by (cases item)
  define px where "px = (if length rgb = 1 then replicate 4 (rgb ! 0) else take 4 rgb)"
  define img1 where
    "img1 = map2 (\<lambda>irow drow. map2 (\<lambda>p x. if x = cls then px else p) irow drow) img data"
  from Cons.prems(2) item have len: "length rgb = 1 \<or> 4 \<le> length rgb" by auto
  have bc: "broadcast4 (take 4 rgb) = Inr px"
  proof (cases "length rgb = 1")
    case True
    then have "px = replicate 4 (rgb ! 0)" by (simp add: px_def)
    with True show ?thesis by (simp only: broadcast4_one)
  next
    case False
    with len have "4 \<le> length rgb" by simp
    moreover from False have "px = take 4 rgb" by (simp add: px_def)
    ultimately show ?thesis by (simp only: broadcast4_four)
  qed
  have step: "assign_where img data cls (take 4 rgb) = Inr img1"
    unfolding assign_where_def img1_def bc by simp
  have shape1: "map length img1 = map length data"
    unfolding img1_def using Cons.prems(3) by (rule map2_rows_shape)
  have cells1: "img1 ! i ! j = (if data ! i ! j = cls then px else img ! i ! j)"
    if "i < length data" "j < length (data ! i)" for i j
    unfolding img1_def using Cons.prems(3) that by (simp add: map2_rows_nth)
  from Cons.prems(1) have d: "distinct (map fst items)" by simp
  from Cons.prems(2) have l: "\<forall>(c, v) \<in> set items. length v = 1 \<or> 4 \<le> length v" by simp
  from Cons.IH [OF d l shape1] obtain img' where
    run: "palette_loop items data img1 = Inr img'" and
    shape': "map length img' = map length data" and
    cells': "\<forall>i<length data. \<forall>j<length (data ! i).
              img' ! i ! j =
                (case map_of items (data ! i ! j) of
                   None \<Rightarrow> img1 ! i ! j
                 | Some v \<Rightarrow> if length v = 1 then replicate 4 (v ! 0) else take 4 v)"
    by blast
  from Cons.prems(1) item have fresh: "map_of items cls = None"
    by (simp add: map_of_eq_None_iff)
  have "img' ! i ! j =
          (case map_of (item # items) (data ! i ! j) of
             None \<Rightarrow> img ! i ! j
           | Some v \<Rightarrow> if length v = 1 then replicate 4 (v ! 0) else take 4 v)"
    if ij: "i < length data" "j < length (data ! i)" for i j
  proof (cases "data ! i ! j = cls")
    case True
    with cells' ij fresh cells1 [OF ij] show ?thesis
      by (simp add: item px_def)
  next
    case False
    with cells' ij cells1 [OF ij] show ?thesis
      by (simp add: item split: option.split)
  qed
  with run shape' step item show ?case by simp
qed

lemma zeros_shape: "map length (zeros data) = map length data"
  by (simp add: zeros_def)

lemma zeros_nth: "i < length data \<Longrightarrow> j < length (data ! i) \<Longrightarrow> zeros data ! i ! j = [0, 0, 0, 0]"
  by (simp add: zeros_def)

text \<open>
  C3, as amended. For a palette whose entries all have at least four values (as every
  entry returned by \<open>src.colormap(1)\<close> has), recoloring succeeds, the image has the shape of
  the grid, and each pixel is the zero vector when its class code is not a key of the
  palette and the first four values of its entry when it is.
\<close>

theorem recolor_lookup:
  assumes "colormap src = Some items"
    and "distinct (map fst items)"
    and "\<forall>(c, rgb) \<in> set items. 4 \<le> length rgb"
    and "i < length data" and "j < length (data ! i)"
  shows "\<exists>img. recolor src data = Inr img \<and>
           map length img = map length data \<and>
           img ! i ! j =
             (case map_of items (data ! i ! j) of
                None \<Rightarrow> [0, 0, 0, 0]
              | Some rgb \<Rightarrow> take 4 rgb)"
proof -
  from assms(3) have l: "\<forall>(c, v) \<in> set items. length v = 1 \<or> 4 \<le> length v" by auto
  from palette_loop_pixels [OF assms(2) l zeros_shape] obtain img where
    run: "palette_loop items data (zeros data) = Inr img" and
    shape: "map length img = map length data" and
    cells: "\<forall>i<length data. \<forall>j<length (data ! i).
              img ! i ! j =
                (case map_of items (data ! i ! j) of
                   None \<Rightarrow> zeros data ! i ! j
                 | Some v \<Rightarrow> if length v = 1 then replicate 4 (v ! 0) else take 4 v)"
    by blast
  have "img ! i ! j = (case map_of items (data ! i ! j) of None \<Rightarrow> [0, 0, 0, 0] | Some rgb \<Rightarrow> take 4 rgb)"
  proof (cases "map_of items (data ! i ! j)")
    case None
    with cells assms(4,5) show ?thesis by (simp add: zeros_nth)
  next
    case (Some v)
    then have "(data ! i ! j, v) \<in> set items" by (rule map_of_SomeD)
    with assms(3) have "4 \<le> length v" by auto
    with cells assms(4,5) Some show ?thesis by simp
  qed
  with run shape assms(1) show ?thesis
    by (simp add: recolor_def recolor_with_def)
qed

text \<open>The theorem on a grid with two mapped codes, the sentinel and an unmapped code.\<close>

theorem recolor_lookup_witness:
  "colormap fixture_tile
     = Some [(11, [70, 107, 159, 255]), (21, [222, 197, 197, 255]), (250, [0, 0, 0, 0])]
   \<and> recolor fixture_tile [[11, 99], [250, 21]]
     = Inr [[[70, 107, 159, 255], [0, 0, 0, 0]], [[0, 0, 0, 0], [222, 197, 197, 255]]]"
proof -
  let ?items = "[(11, [70, 107, 159, 255]), (21, [222, 197, 197, 255]), (250, [0, 0, 0, 0])]
                  :: (int \<times> uint8 list) list"
  let ?data = "[[11, 99], [250, 21]] :: grid"
  have cm: "colormap fixture_tile = Some ?items"
    by (simp add: fixture_tile_def)
  have d: "distinct (map fst ?items)" by simp
  have l: "\<forall>(c, rgb) \<in> set ?items. 4 \<le> length rgb" by simp
  obtain img where run: "recolor fixture_tile ?data = Inr img"
    and shape: "map length img = map length ?data"
    using recolor_lookup [OF cm d l, of 0 ?data 0] by auto
  have p00: "img ! 0 ! 0 = [70, 107, 159, 255]"
    using recolor_lookup [OF cm d l, of 0 ?data 0] run by auto
  have p01: "img ! 0 ! 1 = [0, 0, 0, 0]"
    using recolor_lookup [OF cm d l, of 0 ?data 1] run by auto
  have p10: "img ! 1 ! 0 = [0, 0, 0, 0]"
    using recolor_lookup [OF cm d l, of 1 ?data 0] run by auto
  have p11: "img ! 1 ! 1 = [222, 197, 197, 255]"
    using recolor_lookup [OF cm d l, of 1 ?data 1] run by auto
  have "img = [[[70, 107, 159, 255], [0, 0, 0, 0]], [[0, 0, 0, 0], [222, 197, 197, 255]]]"
  proof (rule grid_eqI)
    show "map length img = map length [[[70, 107, 159, 255], [0, 0, 0, 0]], [[0, 0, 0, 0], [222, 197, 197, 255 :: uint8]]]"
      using shape by simp
  next
    fix i j
    assume "i < length [[[70, 107, 159, 255], [0, 0, 0, 0]], [[0, 0, 0, 0], [222, 197, 197, 255 :: uint8]]]"
      and "j < length ([[[70, 107, 159, 255], [0, 0, 0, 0]], [[0, 0, 0, 0], [222, 197, 197, 255 :: uint8]]] ! i)"
    then have "(i = 0 \<or> i = 1) \<and> (j = 0 \<or> j = 1)"
      by (auto simp: less_Suc_eq numeral_2_eq_2)
    with p00 p01 p10 p11
    show "img ! i ! j = [[[70, 107, 159, 255], [0, 0, 0, 0]], [[0, 0, 0, 0], [222, 197, 197, 255]]] ! i ! j"
      by auto
  qed
  with cm run show ?thesis by simp
qed

text \<open>C3 as stated fails for a palette with an entry of three values: the pixel of the
  unmapped class 21 does not become the zero vector and the pixel of class 11 does not
  receive its entry, because the assignment under the entry raises ValueError.\<close>

theorem recolor_unmapped_counterexample:
  "colormap rgb_tile = Some [(11, [70, 107, 159])]
   \<and> recolor rgb_tile [[21, 11]] = Inl ValueError"
  by (simp add: recolor_def recolor_with_def rgb_tile_def fixture_tile_def assign_where_def zeros_def)

text \<open>
  C7, as amended. A palette entry with fewer than four values is not padded with zeros.
  If it has no, two or three values, recoloring fails with ValueError, whether or not a
  pixel has its class code. If it has exactly one value (and every entry has one or at
  least four), that value is written to all four channels of the matching pixels.
\<close>

theorem recolor_short_tuple:
  assumes "colormap src = Some items" and "(cls, rgb) \<in> set items" and "length rgb < 4"
  shows "(length rgb \<noteq> 1 \<longrightarrow> recolor src data = Inl ValueError) \<and>
         (length rgb = 1 \<and> distinct (map fst items) \<and>
          (\<forall>(c, v) \<in> set items. length v = 1 \<or> 4 \<le> length v) \<and>
          i < length data \<and> j < length (data ! i) \<and> data ! i ! j = cls
            \<longrightarrow> (\<exists>img. recolor src data = Inr img \<and> img ! i ! j = replicate 4 (rgb ! 0)))"
proof (intro conjI impI)
  assume "length rgb \<noteq> 1"
  with assms show "recolor src data = Inl ValueError"
    by (simp add: recolor_def recolor_with_def palette_loop_short)
next
  assume a: "length rgb = 1 \<and> distinct (map fst items) \<and>
          (\<forall>(c, v) \<in> set items. length v = 1 \<or> 4 \<le> length v) \<and>
          i < length data \<and> j < length (data ! i) \<and> data ! i ! j = cls"
  then have d: "distinct (map fst items)"
    and l: "\<forall>(c, v) \<in> set items. length v = 1 \<or> 4 \<le> length v" by simp_all
  from palette_loop_pixels [OF d l zeros_shape] obtain img where
    run: "palette_loop items data (zeros data) = Inr img" and
    cells: "\<forall>i<length data. \<forall>j<length (data ! i).
              img ! i ! j =
                (case map_of items (data ! i ! j) of
                   None \<Rightarrow> zeros data ! i ! j
                 | Some v \<Rightarrow> if length v = 1 then replicate 4 (v ! 0) else take 4 v)"
    by blast
  from d assms(2) have "map_of items cls = Some rgb" by simp
  with cells a have "img ! i ! j = replicate 4 (rgb ! 0)" by simp
  with run assms(1) show "\<exists>img. recolor src data = Inr img \<and> img ! i ! j = replicate 4 (rgb ! 0)"
    by (simp add: recolor_def recolor_with_def)
qed

text \<open>The theorem on a palette with a three-value entry and on one with a one-value
  entry.\<close>

theorem recolor_short_tuple_witness:
  "colormap rgb_tile = Some [(11, [70, 107, 159])]
   \<and> recolor rgb_tile [[11]] = Inl ValueError
   \<and> recolor rgb_tile [[21]] = Inl ValueError
   \<and> colormap grey_tile = Some [(11, [70]), (21, [222, 197, 197, 255])]
   \<and> recolor grey_tile [[21, 11]] = Inr [[[222, 197, 197, 255], [70, 70, 70, 70]]]"
proof -
  have cm3: "colormap rgb_tile = Some [(11, [70, 107, 159])]"
    by (simp add: rgb_tile_def fixture_tile_def)
  have in3: "(11, [70, 107, 159]) \<in> set [(11, [70, 107, 159 :: uint8]) :: int \<times> uint8 list]"
    and len3: "length [70, 107, 159 :: uint8] < 4" "length [70, 107, 159 :: uint8] \<noteq> 1"
    by simp_all
  from recolor_short_tuple [OF cm3 in3 len3(1)] len3(2)
  have a: "recolor rgb_tile [[11]] = Inl ValueError" and b: "recolor rgb_tile [[21]] = Inl ValueError"
    by blast+
  have cm1: "colormap grey_tile = Some [(11, [70]), (21, [222, 197, 197, 255])]"
    by (simp add: grey_tile_def fixture_tile_def)
  have in1: "(11, [70]) \<in> set [(11, [70]), (21, [222, 197, 197, 255 :: uint8]) :: int \<times> uint8 list]"
    and len1: "length [70 :: uint8] < 4"
    by simp_all
  have run: "recolor grey_tile [[21, 11]] = Inr [[[222, 197, 197, 255], [70, 70, 70, 70]]]"
    by (simp add: recolor_def recolor_with_def grey_tile_def fixture_tile_def assign_where_def
          zeros_def)
  from recolor_short_tuple [OF cm1 in1 len1, of "[[21, 11]]" 0 1] run
  have "[[[222, 197, 197, 255], [70, 70, 70, 70]]] ! 0 ! 1 = replicate 4 (70 :: uint8)"
    by auto
  with cm3 a b cm1 run show ?thesis by simp
qed

text \<open>C7 as stated fails: a pixel of class 11 under the entry (70, 107, 159) does not
  become (70, 107, 159, 0); the assignment raises ValueError.\<close>

theorem recolor_three_values_counterexample:
  "colormap rgb_tile = Some [(11, [70, 107, 159])]
   \<and> recolor rgb_tile [[11]] = Inl ValueError"
  by (simp add: recolor_def recolor_with_def rgb_tile_def fixture_tile_def assign_where_def zeros_def)

section \<open>The year range\<close>




lemma range_down_nth:
  "k < length (range_down i stop step) \<Longrightarrow> range_down i stop step ! k = i + int k * step"
proof (induction i stop step arbitrary: k rule: range_down.induct)
  case (1 i stop step)
  show ?case
  proof (cases "step < 0 \<and> stop < i")
    case True
    then have unfold: "range_down i stop step = i # range_down (i + step) stop step"
      by (simp add: range_down.simps [of i])
    show ?thesis
    proof (cases k)
      case 0
      with unfold show ?thesis by simp
    next
      case (Suc k')
      with "1.prems" unfold have "k' < length (range_down (i + step) stop step)" by simp
      with True have "range_down (i + step) stop step ! k' = i + step + int k' * step"
        by (rule "1.IH")
      with unfold Suc show ?thesis by (simp add: algebra_simps)
    qed
  next
    case False
    then have "range_down i stop step = []" by (simp add: range_down.simps [of i])
    with "1.prems" show ?thesis by simp
  qed
qed

lemma range_down_above: "y \<in> set (range_down i stop step) \<Longrightarrow> stop < y"
proof (induction i stop step rule: range_down.induct)
  case (1 i stop step)
  show ?case
  proof (cases "step < 0 \<and> stop < i")
    case True
    then have "range_down i stop step = i # range_down (i + step) stop step"
      by (simp add: range_down.simps [of i])
    with "1.prems" have "y = i \<or> y \<in> set (range_down (i + step) stop step)" by simp
    with True "1.IH" show ?thesis by auto
  next
    case False
    then have "range_down i stop step = []" by (simp add: range_down.simps [of i])
    with "1.prems" show ?thesis by simp
  qed
qed

lemma range_down_end: "step < 0 \<Longrightarrow> i + int (length (range_down i stop step)) * step \<le> stop"
proof (induction i stop step rule: range_down.induct)
  case (1 i stop step)
  show ?case
  proof (cases "stop < i")
    case True
    with "1.prems" have unfold: "range_down i stop step = i # range_down (i + step) stop step"
      by (simp add: range_down.simps [of i])
    from True "1.prems" have "i + step + int (length (range_down (i + step) stop step)) * step \<le> stop"
      by (intro "1.IH") simp_all
    with unfold show ?thesis by (simp add: algebra_simps)
  next
    case False
    then have "range_down i stop step = []" by (simp add: range_down.simps [of i])
    with False show ?thesis by simp
  qed
qed

lemma range_up_empty: "stop \<le> i \<Longrightarrow> range_up i stop step = []"
  by (simp add: range_up.simps [of i])

lemma range_down_empty: "i \<le> stop \<Longrightarrow> range_down i stop step = []"
  by (simp add: range_down.simps [of i])



section \<open>The effects of a run\<close>

lemmas pipeline_defs =
  main_def range_py_def range_up.simps range_down.simps process_year_def
  get_extent_def to_crs_def query_def plain_def clip_def masked_assign_def recolor_def
  recolor_with_def assign_where_def zeros_def save_and_show_def mimsave_def image_shape_def
  emit_def img_tag_def b64_char_def b64_alphabet_def

lemmas fixture_defs =
  fixture_def changing_def drifting_def offline_def uneven_def fixture_USA_def fixture_tile_def fixture_mask_def
  fixture_encode_def initial_state_def used_state_def

lemma get_extent_effect:
  "get_extent W s state county = Inr (ext, s') \<Longrightarrow> s' = emit (RioOpen 1985) s"
  by (auto simp: get_extent_def split: option.splits sum.splits)

text \<open>The boundary does not depend on the state in which it is resolved.\<close>

lemma get_extent_any_state:
  "get_extent W s state county = Inr (ext, s') \<Longrightarrow>
   get_extent W s2 state county = Inr (ext, emit (RioOpen 1985) s2)"
  by (auto simp: get_extent_def split: option.splits sum.splits)

lemma get_extent_failure:
  "get_extent W s state county = Inl (e, s') \<Longrightarrow> s' = s \<or> s' = emit (RioOpen 1985) s"
  by (auto simp: get_extent_def split: option.splits sum.splits)

lemma process_year_effect:
  assumes "process_year W state county year (s, images) = Inr (s', images')"
  shows "trace s' = trace s @ [Downloading year county, RioOpen year, RioOpen 1985] \<and>
         files s' = files s \<and> (\<exists>img. images' = images @ [img])"
  using assms
  by (auto simp: process_year_def emit_def split: option.splits sum.splits
           dest!: get_extent_effect)

lemma process_year_failure:
  assumes "process_year W state county year (s, images) = Inl (e, s')"
  shows "files s' = files s \<and>
         (\<exists>added. trace s' = trace s @ added \<and> (\<forall>ev \<in> set added. \<exists>y c. ev = Downloading y c \<or> ev = RioOpen y \<or> ev = PreparingGIF))"
proof -
  let ?s1 = "emit (Downloading year county) s"
  let ?s2 = "emit (RioOpen year) ?s1"
  from assms have "s' = ?s1 \<or> s' = ?s2 \<or> s' = emit (RioOpen 1985) ?s2"
    by (auto simp: process_year_def split: option.splits sum.splits
             dest: get_extent_failure get_extent_effect)
  then show ?thesis
    by (auto simp: emit_def)
qed

lemma years_loop_effect:
  assumes "years_loop W state county years (s, images) = Inr (s', images')"
  shows "trace s' = trace s @ concat (map (\<lambda>y. [Downloading y county, RioOpen y, RioOpen 1985]) years) \<and>
         files s' = files s \<and> (\<exists>new. images' = images @ new \<and> length new = length years)"
  using assms
proof (induction years arbitrary: s images)
  case Nil
  then show ?case by simp
next
  case (Cons y years)
  from Cons.prems obtain s1 images1 where
    one: "process_year W state county y (s, images) = Inr (s1, images1)" and
    rest: "years_loop W state county years (s1, images1) = Inr (s', images')"
    by (auto split: sum.splits)
  from process_year_effect [OF one] obtain img where
    t1: "trace s1 = trace s @ [Downloading y county, RioOpen y, RioOpen 1985]" and
    f1: "files s1 = files s" and i1: "images1 = images @ [img]"
    by blast
  from Cons.IH [OF rest] obtain new where
    t2: "trace s' = trace s1 @ concat (map (\<lambda>y. [Downloading y county, RioOpen y, RioOpen 1985]) years)" and
    f2: "files s' = files s1" and i2: "images' = images1 @ new" "length new = length years"
    by blast
  from t1 t2 f1 f2 i1 i2 show ?case by simp
qed

lemma years_loop_failure:
  assumes "years_loop W state county years (s, images) = Inl (e, s')"
  shows "files s' = files s \<and>
         (\<exists>added. trace s' = trace s @ added \<and> (\<forall>ev \<in> set added. \<exists>y c. ev = Downloading y c \<or> ev = RioOpen y \<or> ev = PreparingGIF))"
  using assms
proof (induction years arbitrary: s images)
  case Nil
  then show ?case by simp
next
  case (Cons y years)
  show ?case
  proof (cases "process_year W state county y (s, images)")
    case (Inl failure)
    with Cons.prems have "process_year W state county y (s, images) = Inl (e, s')" by simp
    then show ?thesis by (rule process_year_failure)
  next
    case (Inr acc)
    obtain s1 images1 where acc: "acc = (s1, images1)" by (cases acc)
    from Inr acc process_year_effect [of W state county y s images s1 images1]
    have t1: "trace s1 = trace s @ [Downloading y county, RioOpen y, RioOpen 1985]"
      and f1: "files s1 = files s"
      by simp_all
    from Cons.prems Inr acc have "years_loop W state county years (s1, images1) = Inl (e, s')"
      by simp
    from Cons.IH [OF this] obtain added where
      f2: "files s' = files s1" and t2: "trace s' = trace s1 @ added"
      and q: "\<forall>ev \<in> set added. \<exists>y c. ev = Downloading y c \<or> ev = RioOpen y \<or> ev = PreparingGIF"
      by blast
    from t1 t2 have "trace s' = trace s @ ([Downloading y county, RioOpen y, RioOpen 1985] @ added)"
      by simp
    moreover from q
    have "\<forall>ev \<in> set ([Downloading y county, RioOpen y, RioOpen 1985] @ added).
            \<exists>y c. ev = Downloading y c \<or> ev = RioOpen y \<or> ev = PreparingGIF"
      by simp
    ultimately show ?thesis using f1 f2 by (metis (no_types))
  qed
qed

text \<open>Each frame is the recolored clip of its year's tile against the resolved
  boundary.\<close>

lemma process_year_frame:
  assumes "process_year W state county year (s, images) = Inr (s', images')"
  shows "\<exists>src extent data img.
           rio_open W year = Some src \<and>
           get_extent W s0 state county = Inr (extent, emit (RioOpen 1985) s0) \<and>
           clip W src extent = Inr data \<and>
           recolor src data = Inr img \<and> images' = images @ [img]"
proof -
  from assms obtain src extent sa sb data img where
    a: "rio_open W year = Some src" "get_extent W sa state county = Inr (extent, sb)"
      "clip W src extent = Inr data" "recolor src data = Inr img" "images' = images @ [img]"
    by (auto simp: process_year_def split: option.splits sum.splits)
  from a(2) have "get_extent W s0 state county = Inr (extent, emit (RioOpen 1985) s0)"
    by (rule get_extent_any_state)
  with a show ?thesis by blast
qed

lemma years_loop_frames:
  assumes "years_loop W state county years (s, images) = Inr (s', images')"
  shows "\<exists>new. images' = images @ new \<and> length new = length years \<and>
           (\<forall>k<length years. \<exists>src extent data.
              rio_open W (years ! k) = Some src \<and>
              get_extent W s0 state county = Inr (extent, emit (RioOpen 1985) s0) \<and>
              clip W src extent = Inr data \<and>
              recolor src data = Inr (new ! k))"
  using assms
proof (induction years arbitrary: s images)
  case Nil
  then show ?case by simp
next
  case (Cons y years)
  from Cons.prems obtain s1 images1 where
    one: "process_year W state county y (s, images) = Inr (s1, images1)" and
    rest: "years_loop W state county years (s1, images1) = Inr (s', images')"
    by (auto split: sum.splits)
  from process_year_frame [OF one, of s0] obtain src extent data img where
    head: "rio_open W y = Some src"
      "get_extent W s0 state county = Inr (extent, emit (RioOpen 1985) s0)"
      "clip W src extent = Inr data" "recolor src data = Inr img"
    and i1: "images1 = images @ [img]"
    by blast
  from Cons.IH [OF rest] obtain new where
    i2: "images' = images1 @ new" and n: "length new = length years" and
    tail: "\<forall>k<length years. \<exists>src extent data.
              rio_open W (years ! k) = Some src \<and>
              get_extent W s0 state county = Inr (extent, emit (RioOpen 1985) s0) \<and>
              clip W src extent = Inr data \<and>
              recolor src data = Inr (new ! k)"
    by blast
  have "\<exists>src extent data.
              rio_open W ((y # years) ! k) = Some src \<and>
              get_extent W s0 state county = Inr (extent, emit (RioOpen 1985) s0) \<and>
              clip W src extent = Inr data \<and>
              recolor src data = Inr ((img # new) ! k)"
    if "k < length (y # years)" for k
  proof (cases k)
    case 0
    with head show ?thesis by auto
  next
    case (Suc k')
    with that have "k' < length years" by simp
    with tail Suc show ?thesis by simp
  qed
  with i1 i2 n show ?case
    by (intro exI [of _ "img # new"]) simp
qed

lemma save_and_show_effect:
  assumes "save_and_show W images s = Inr s'"
  shows "images \<noteq> [] \<and> same_shapes images \<and>
         (\<exists>held bytes. gif_encode W \<lparr>frames = images, fps = 4, loop = 0\<rparr> = (held, bytes) \<and>
           files s' = (files s)(''nlcd.gif'' \<mapsto> bytes) \<and>
           trace s' = trace s @ [PreparingGIF, Mimsave ''nlcd.gif'' images 4 0,
                                 Markdown (img_tag (b64encode bytes))])"
  using assms
  by (auto simp: save_and_show_def mimsave_def emit_def
           split: sum.splits option.splits if_splits prod.splits)

lemma save_and_show_failure:
  assumes "save_and_show W images s = Inl (e, s')"
  shows "s' = emit PreparingGIF s \<and> e = ValueError \<and> (images = [] \<or> \<not> same_shapes images)"
  using assms
  by (auto simp: save_and_show_def mimsave_def emit_def
           split: sum.splits option.splits if_splits prod.splits)

lemma main_effect:
  assumes "main W s start stop step state county = Inr s'"
  shows "\<exists>years images held bytes.
           range_py start stop step = Inr years \<and>
           length images = length years \<and>
           (\<forall>k<length years. \<exists>src extent data.
              rio_open W (years ! k) = Some src \<and>
              get_extent W s state county = Inr (extent, emit (RioOpen 1985) s) \<and>
              clip W src extent = Inr data \<and>
              recolor src data = Inr (images ! k)) \<and>
           gif_encode W \<lparr>frames = images, fps = 4, loop = 0\<rparr> = (held, bytes) \<and>
           files s' = (files s)(''nlcd.gif'' \<mapsto> bytes) \<and>
           trace s' = trace s
             @ concat (map (\<lambda>y. [Downloading y county, RioOpen y, RioOpen 1985]) years)
             @ [PreparingGIF, Mimsave ''nlcd.gif'' images 4 0, Markdown (img_tag (b64encode bytes))]"
proof -
  from assms obtain years s1 images where
    r: "range_py start stop step = Inr years" and
    l: "years_loop W state county years (s, []) = Inr (s1, images)" and
    f: "save_and_show W images s1 = Inr s'"
    by (auto simp: main_def split: sum.splits)
  from years_loop_effect [OF l] have
    t1: "trace s1 = trace s @ concat (map (\<lambda>y. [Downloading y county, RioOpen y, RioOpen 1985]) years)"
    and f1: "files s1 = files s" and n: "length images = length years"
    by auto
  from years_loop_frames [OF l, of s] have
    fr: "\<forall>k<length years. \<exists>src extent data.
              rio_open W (years ! k) = Some src \<and>
              get_extent W s state county = Inr (extent, emit (RioOpen 1985) s) \<and>
              clip W src extent = Inr data \<and>
              recolor src data = Inr (images ! k)"
    by auto
  from save_and_show_effect [OF f] obtain held bytes where
    e: "gif_encode W \<lparr>frames = images, fps = 4, loop = 0\<rparr> = (held, bytes)" and
    f2: "files s' = (files s1)(''nlcd.gif'' \<mapsto> bytes)" and
    t2: "trace s' = trace s1 @ [PreparingGIF, Mimsave ''nlcd.gif'' images 4 0,
                                 Markdown (img_tag (b64encode bytes))]"
    by blast
  from f1 f2 have "files s' = (files s)(''nlcd.gif'' \<mapsto> bytes)" by simp
  moreover from t1 t2 have "trace s' = trace s
             @ concat (map (\<lambda>y. [Downloading y county, RioOpen y, RioOpen 1985]) years)
             @ [PreparingGIF, Mimsave ''nlcd.gif'' images 4 0, Markdown (img_tag (b64encode bytes))]"
    by simp
  ultimately show ?thesis using r n e fr by blast
qed

lemma main_failure:
  assumes "main W s start stop step state county = Inl (e, s')"
  shows "files s' = files s \<and>
         (\<exists>added. trace s' = trace s @ added \<and> (\<forall>ev \<in> set added. \<exists>y c. ev = Downloading y c \<or> ev = RioOpen y \<or> ev = PreparingGIF))"
proof (cases "range_py start stop step")
  case (Inl e0)
  with assms have "s' = s" by (simp add: main_def)
  then show ?thesis by simp
next
  case (Inr years)
  show ?thesis
  proof (cases "years_loop W state county years (s, [])")
    case (Inl failure)
    with assms Inr have "years_loop W state county years (s, []) = Inl (e, s')"
      by (simp add: main_def)
    then show ?thesis by (rule years_loop_failure)
  next
    case (Inr acc)
    obtain s1 images where acc: "acc = (s1, images)" by (cases acc)
    from Inr acc years_loop_effect [of W state county years s "[]" s1 images]
    have t1: "trace s1 = trace s @ concat (map (\<lambda>y. [Downloading y county, RioOpen y, RioOpen 1985]) years)"
      and f1: "files s1 = files s"
      by simp_all
    from assms \<open>range_py start stop step = Inr years\<close> Inr acc
    have "save_and_show W images s1 = Inl (e, s')" by (simp add: main_def)
    then have s': "s' = emit PreparingGIF s1" by (simp add: save_and_show_failure)
    let ?added = "concat (map (\<lambda>y. [Downloading y county, RioOpen y, RioOpen 1985]) years)
                    @ [PreparingGIF]"
    from s' t1 have "trace s' = trace s @ ?added" by (simp add: emit_def)
    moreover have "\<forall>ev \<in> set ?added. \<exists>y c. ev = Downloading y c \<or> ev = RioOpen y \<or> ev = PreparingGIF"
      by auto
    moreover from s' f1 have "files s' = files s" by (simp add: emit_def)
    ultimately show ?thesis by blast
  qed
qed

section \<open>Reading the data URL back\<close>

lemma b64_alphabet_distinct: "distinct b64_alphabet"
  by code_simp
lemma b64_alphabet_length: "length b64_alphabet = 64"
  by (simp add: b64_alphabet_def)
lemma b64_pad_outside: "CHR ''='' \<notin> set b64_alphabet"
    by (simp add: b64_alphabet_def)

lemma sextets:
  fixes n :: nat
  assumes "n < 16777216"
  shows "(n div 262144) mod 64 * 262144 + (n div 4096) mod 64 * 4096
           + (n div 64) mod 64 * 64 + n mod 64 = n"
proof -
  define q1 where "q1 = n div 64"
  define q2 where "q2 = q1 div 64"
  define q3 where "q3 = q2 div 64"
  have d2: "n div 4096 = q2" unfolding q2_def q1_def by (simp add: div_mult2_eq)
  have d3: "n div 262144 = q3" unfolding q3_def q2_def q1_def by (simp add: div_mult2_eq)
  have "q3 < 64" using assms unfolding d3 [symmetric] by simp
  then have m3: "q3 mod 64 = q3" by simp
  have e1: "n = q1 * 64 + n mod 64" unfolding q1_def by simp
  have e2: "q1 = q2 * 64 + q1 mod 64" unfolding q2_def by simp
  have e3: "q2 = q3 * 64 + q2 mod 64" unfolding q3_def by simp
  have "q3 * 262144 + q2 mod 64 * 4096 + q1 mod 64 * 64 + n mod 64
          = ((q3 * 64 + q2 mod 64) * 64 + q1 mod 64) * 64 + n mod 64"
    by (simp add: algebra_simps)
  also have "\<dots> = (q2 * 64 + q1 mod 64) * 64 + n mod 64" using e3 by simp
  also have "\<dots> = q1 * 64 + n mod 64" using e2 by simp
  also have "\<dots> = n" using e1 by simp
  finally show ?thesis
    unfolding d2 d3 m3 q1_def [symmetric] .
qed

lemma octets:
  fixes a b c :: nat
  assumes "b < 256" "c < 256"
  shows "(a * 65536 + b * 256 + c) div 65536 = a"
    and "(a * 65536 + b * 256 + c) div 256 mod 256 = b"
    and "(a * 65536 + b * 256 + c) mod 256 = c"
proof -
  define m where "m = a * 256 + b"
  have n: "a * 65536 + b * 256 + c = m * 256 + c"
    by (simp add: m_def algebra_simps)
  have md: "(m * 256 + c) mod 256 = c" using assms(2) by simp
  have dv: "(m * 256 + c) div 256 = m" using assms(2) by simp
  have mm: "m mod 256 = b" unfolding m_def using assms(1) by simp
  have dm: "m div 256 = a" unfolding m_def using assms(1) by simp
  show "(a * 65536 + b * 256 + c) mod 256 = c"
    by (simp only: n md)
  show "(a * 65536 + b * 256 + c) div 256 mod 256 = b"
    by (simp only: n dv mm)
  have "(m * 256 + c) div 65536 = (m * 256 + c) div 256 div 256"
    by (simp add: div_mult2_eq)
  then show "(a * 65536 + b * 256 + c) div 65536 = a"
    by (simp only: n dv dm)
qed

lemma b64_value_in_nth:
  "distinct alphabet \<Longrightarrow> k < length alphabet \<Longrightarrow> b64_value_in alphabet (alphabet ! k) = k"
proof (induction alphabet arbitrary: k)
  case Nil
  then show ?case by simp
next
  case (Cons x alphabet)
  show ?case
  proof (cases k)
    case 0
    then show ?thesis by simp
  next
    case (Suc k')
    with Cons.prems have "k' < length alphabet" "alphabet ! k' \<in> set alphabet" by simp_all
    with Cons.prems Cons.IH [of k'] Suc show ?thesis by auto
  qed
qed

lemma b64_value_char: "b64_value (b64_char n) = n mod 64"
  unfolding b64_value_def b64_char_def
  by (rule b64_value_in_nth [OF b64_alphabet_distinct]) (simp add: b64_alphabet_length)

lemma b64_char_not_pad: "b64_char n \<noteq> CHR ''=''"
proof -
  have "b64_char n \<in> set b64_alphabet"
    unfolding b64_char_def by (rule nth_mem) (simp add: b64_alphabet_length)
  with b64_pad_outside show ?thesis by auto
qed

lemma sextets3:
  fixes n :: nat
  assumes "n < 16777216"
  shows "(n div 262144) mod 64 * 4096 + (n div 4096) mod 64 * 64 + (n div 64) mod 64 = n div 64"
proof -
  define q1 where "q1 = n div 64"
  define q2 where "q2 = q1 div 64"
  define q3 where "q3 = q2 div 64"
  have d2: "n div 4096 = q2" unfolding q2_def q1_def by (simp add: div_mult2_eq)
  have d3: "n div 262144 = q3" unfolding q3_def q2_def q1_def by (simp add: div_mult2_eq)
  have "q3 < 64" using assms unfolding d3 [symmetric] by simp
  then have m3: "q3 mod 64 = q3" by simp
  have e2: "q1 = q2 * 64 + q1 mod 64" unfolding q2_def by simp
  have e3: "q2 = q3 * 64 + q2 mod 64" unfolding q3_def by simp
  have "q3 * 4096 + q2 mod 64 * 64 + q1 mod 64 = (q3 * 64 + q2 mod 64) * 64 + q1 mod 64"
    by (simp add: algebra_simps)
  also have "\<dots> = q2 * 64 + q1 mod 64" using e3 by simp
  also have "\<dots> = q1" using e2 by simp
  finally show ?thesis
    unfolding d2 d3 m3 q1_def [symmetric] .
qed

lemma sextets2:
  fixes n :: nat
  assumes "n < 16777216"
  shows "(n div 262144) mod 64 * 64 + (n div 4096) mod 64 = n div 4096"
proof -
  define q2 where "q2 = n div 4096"
  define q3 where "q3 = q2 div 64"
  have d3: "n div 262144 = q3" unfolding q3_def q2_def by (simp add: div_mult2_eq)
  have "q3 < 64" using assms unfolding d3 [symmetric] by simp
  then have m3: "q3 mod 64 = q3" by simp
  have "q2 = q3 * 64 + q2 mod 64" unfolding q3_def by simp
  then show ?thesis
    unfolding d3 m3 q2_def [symmetric] by simp
qed

lemma group_bound:
  fixes a b c :: nat
  shows "a < 256 \<Longrightarrow> b < 256 \<Longrightarrow> c < 256 \<Longrightarrow> a * 65536 + b * 256 + c < 16777216"
  by simp

lemma b64decode_encode: "b64decode (b64encode bytes) = bytes"
proof (induction bytes rule: b64encode.induct)
  case (1 a b c rest)
  define n where "n = unat a * 65536 + unat b * 256 + unat c"
  have lt: "unat a < 256" "unat b < 256" "unat c < 256"
    using unsigned_less [of a, where ?'a = nat] unsigned_less [of b, where ?'a = nat]
      unsigned_less [of c, where ?'a = nat] by simp_all
  then have n: "n < 16777216" unfolding n_def by (rule group_bound)
  have enc: "b64encode (a # b # c # rest)
      = b64_char (n div 262144) # b64_char (n div 4096) # b64_char (n div 64) # b64_char n
          # b64encode rest"
    by (simp add: n_def Let_def)
  have rejoin: "b64_value (b64_char (n div 262144)) * 262144
               + b64_value (b64_char (n div 4096)) * 4096
               + b64_value (b64_char (n div 64)) * 64 + b64_value (b64_char n) = n"
    unfolding b64_value_char using n by (rule sextets)
  have oct: "n div 65536 = unat a" "n div 256 mod 256 = unat b" "n mod 256 = unat c"
    unfolding n_def using lt(2,3) by (rule octets)+
  have "b64decode (b64encode (a # b # c # rest))
      = [of_nat (n div 65536), of_nat (n div 256 mod 256), of_nat (n mod 256)]
          @ b64decode (b64encode rest)"
    unfolding enc by (simp add: b64_char_not_pad rejoin Let_def)
  also have "\<dots> = a # b # c # rest"
    unfolding oct using "1.IH" by simp
  finally show ?case .
next
  case (2 a b)
  define n where "n = unat a * 65536 + unat b * 256 + 0"
  have lt: "unat a < 256" "unat b < 256" "(0::nat) < 256"
    using unsigned_less [of a, where ?'a = nat] unsigned_less [of b, where ?'a = nat]
    by simp_all
  then have n: "n < 16777216" unfolding n_def by (rule group_bound)
  have enc: "b64encode [a, b]
      = [b64_char (n div 262144), b64_char (n div 4096), b64_char (n div 64), CHR ''='']"
    by (simp add: n_def Let_def)
  have rejoin: "b64_value (b64_char (n div 262144)) * 4096
               + b64_value (b64_char (n div 4096)) * 64
               + b64_value (b64_char (n div 64)) = n div 64"
    unfolding b64_value_char using n by (rule sextets3)
  have oct: "n div 65536 = unat a" "n div 256 mod 256 = unat b"
    unfolding n_def using lt(2,3) by (rule octets)+
  have d1: "n div 64 div 1024 = n div 65536" and d2: "n div 64 div 4 = n div 256"
    by (simp_all add: div_mult2_eq)
  have "b64decode (b64encode [a, b]) = [of_nat (n div 64 div 1024), of_nat (n div 64 div 4 mod 256)]"
    unfolding enc by (simp add: b64_char_not_pad rejoin Let_def)
  also have "\<dots> = [a, b]"
    unfolding d1 d2 oct by simp
  finally show ?case .
next
  case (3 a)
  define n where "n = unat a * 65536 + 0 * 256 + 0"
  have lt: "unat a < 256" "(0::nat) < 256"
    using unsigned_less [of a, where ?'a = nat] by simp_all
  then have n: "n < 16777216" unfolding n_def by (intro group_bound) simp_all
  have enc: "b64encode [a] = [b64_char (n div 262144), b64_char (n div 4096), CHR ''='', CHR ''='']"
    by (simp add: n_def Let_def)
  have rejoin: "b64_value (b64_char (n div 262144)) * 64 + b64_value (b64_char (n div 4096))
               = n div 4096"
    unfolding b64_value_char using n by (rule sextets2)
  have "n div 4096 div 16 = n div 65536" by (simp add: div_mult2_eq)
  also have "\<dots> = unat a" unfolding n_def using lt(2) lt(2) by (rule octets)
  finally have d: "n div 4096 div 16 = unat a" .
  have "b64decode (b64encode [a]) = [of_nat (n div 4096 div 16)]"
    unfolding enc by (simp add: rejoin)
  also have "\<dots> = [a]" unfolding d by simp
  finally show ?case .
next
  case 4
  show ?case by simp
qed




lemma query_rows:
  assumes "query W df state county = Inr selected"
  shows "\<exists>matches. selected = df\<lparr>rows := matches\<rparr> \<and>
           (plain state \<and> plain county \<longrightarrow>
              matches = filter (\<lambda>r. NAME_1 r = state \<and> NAME_2 r = county) (rows df))"
  using assms by (auto simp: query_def split: if_splits sum.splits)

text \<open>
  C9. In every iteration that completes, whatever the year, the 1985 tile is opened after
  the year's own tile, and the boundary handed to the clipper consists of the geometries
  the query selected (for plain names: of the rows with both names), transformed into
  the reference system of the 1985 tile: neither the year nor the reference system of
  the year's tile enters it.
\<close>

theorem extent_in_crs_of_1985:
  assumes "process_year W state county year (s, images) = Inr (s', images')"
  shows "\<exists>src85 t c matches src data img.
           rio_open W 1985 = Some src85 \<and> profile_crs src85 = Some t \<and>
           crs (USA W) = Some c \<and>
           query W (USA W) state county = Inr ((USA W)\<lparr>rows := matches\<rparr>) \<and>
           (plain state \<and> plain county \<longrightarrow>
              matches = filter (\<lambda>r. NAME_1 r = state \<and> NAME_2 r = county) (rows (USA W))) \<and>
           rio_open W year = Some src \<and>
           clip W src (squeeze (map (\<lambda>r. transform_geom W c t (geometry r)) matches)) = Inr data \<and>
           recolor src data = Inr img \<and>
           images' = images @ [img] \<and>
           trace s' = trace s @ [Downloading year county, RioOpen year, RioOpen 1985]"
proof -
  from assms obtain src extent data img where
    o: "rio_open W year = Some src" and
    g: "get_extent W (emit (RioOpen year) (emit (Downloading year county) s)) state county
          = Inr (extent, s')" and
    c: "clip W src extent = Inr data" and
    r: "recolor src data = Inr img" and
    i: "images' = images @ [img]"
    by (auto simp: process_year_def split: option.splits sum.splits)
  from g obtain src85 selected df where
    o85: "rio_open W 1985 = Some src85" and
    q: "query W (USA W) state county = Inr selected" and
    tc: "to_crs (transform_geom W) selected (profile_crs src85) = Inr df" and
    ext: "extent = squeeze (map geometry (rows df))" and
    s': "s' = emit (RioOpen 1985) (emit (RioOpen year) (emit (Downloading year county) s))"
    by (auto simp: get_extent_def split: option.splits sum.splits)
  from query_rows [OF q] obtain matches where
    sel: "selected = (USA W)\<lparr>rows := matches\<rparr>" and
    pl: "plain state \<and> plain county \<longrightarrow>
              matches = filter (\<lambda>r. NAME_1 r = state \<and> NAME_2 r = county) (rows (USA W))"
    by blast
  from tc sel obtain t c' where
    t: "profile_crs src85 = Some t" and c': "crs (USA W) = Some c'" and
    df: "rows df = map (\<lambda>r. r\<lparr>geometry := transform_geom W c' t (geometry r)\<rparr>) matches"
    by (auto simp: to_crs_def split: option.splits)
  from ext df have "extent = squeeze (map (\<lambda>r. transform_geom W c' t (geometry r)) matches)"
    by (simp add: o_def)
  with c have c2: "clip W src (squeeze (map (\<lambda>r. transform_geom W c' t (geometry r)) matches))
      = Inr data"
    by simp
  from s' have tr: "trace s' = trace s @ [Downloading year county, RioOpen year, RioOpen 1985]"
    by (simp add: emit_def)
  from o85 t c' q [unfolded sel] pl o c2 r i tr show ?thesis by blast
qed

text \<open>The theorem for the year 1993, in the world where the tile of 1993 has another
  reference system than the tile of 1985: the frame shows the mask of the boundary
  transformed into the system of 1985.\<close>

theorem extent_in_crs_of_1985_witness:
  "process_year drifting ''Texas'' ''Travis'' 1993 (initial_state, [])
     = Inr (\<lparr>trace = [Downloading 1993 ''Travis'', RioOpen 1993, RioOpen 1985], files = Map.empty\<rparr>,
            [[[[70, 107, 159, 255], [0, 0, 0, 0]], [[222, 197, 197, 255], [70, 107, 159, 255]]]])
   \<and> rio_open drifting 1985 = Some fixture_tile
   \<and> profile_crs fixture_tile = Some ''EPSG:5070''
   \<and> rio_open drifting 1993 = Some (fixture_tile\<lparr>profile_crs := Some ''EPSG:3857''\<rparr>)
   \<and> plain ''Texas'' \<and> plain ''Travis''
   \<and> squeeze (map (\<lambda>r. transform_geom drifting ''EPSG:4326'' ''EPSG:5070'' (geometry r))
          (filter (\<lambda>r. NAME_1 r = ''Texas'' \<and> NAME_2 r = ''Travis'') (rows (USA drifting))))
       = Scalar [(1, 1), (3, 1), (3, 3)]
   \<and> clip drifting (fixture_tile\<lparr>profile_crs := Some ''EPSG:3857''\<rparr>)
        (Scalar [(1, 1), (3, 1), (3, 3)]) = Inr [[11, 250], [21, 11]]
   \<and> clip drifting (fixture_tile\<lparr>profile_crs := Some ''EPSG:3857''\<rparr>)
        (Scalar [(0, 0), (2, 0), (2, 2)]) = Inr [[250, 250], [250, 250]]"
proof -
  let ?tile93 = "fixture_tile\<lparr>profile_crs := Some ''EPSG:3857''\<rparr>"
  let ?extent = "squeeze (map (\<lambda>r. transform_geom drifting ''EPSG:4326'' ''EPSG:5070'' (geometry r))
          (filter (\<lambda>r. NAME_1 r = ''Texas'' \<and> NAME_2 r = ''Travis'') (rows (USA drifting))))"
  have run: "process_year drifting ''Texas'' ''Travis'' 1993 (initial_state, [])
     = Inr (\<lparr>trace = [Downloading 1993 ''Travis'', RioOpen 1993, RioOpen 1985], files = Map.empty\<rparr>,
            [[[[70, 107, 159, 255], [0, 0, 0, 0]], [[222, 197, 197, 255], [70, 107, 159, 255]]]])"
    by (simp add: pipeline_defs fixture_defs)
  have o: "rio_open drifting 1985 = Some fixture_tile" "rio_open drifting 1993 = Some ?tile93"
    and t: "profile_crs fixture_tile = Some ''EPSG:5070''"
    and c: "crs (USA drifting) = Some ''EPSG:4326''"
    by (simp_all add: fixture_defs)
  have p: "plain ''Texas''" "plain ''Travis''"
    by (simp_all add: plain_def)
  have e: "?extent = Scalar [(1, 1), (3, 1), (3, 3)]"
    by (simp add: fixture_defs)
  have shifted: "clip drifting ?tile93 (Scalar [(1, 1), (3, 1), (3, 3)]) = Inr [[11, 250], [21, 11]]"
    and unshifted: "clip drifting ?tile93 (Scalar [(0, 0), (2, 0), (2, 2)])
                      = Inr [[250, 250], [250, 250]]"
    by (simp_all add: pipeline_defs fixture_defs)
  from extent_in_crs_of_1985 [OF run] obtain src85 t' c' matches src data where
    "rio_open drifting 1985 = Some src85" "profile_crs src85 = Some t'"
    "crs (USA drifting) = Some c'" "rio_open drifting 1993 = Some src"
    "plain ''Texas'' \<and> plain ''Travis'' \<longrightarrow>
       matches = filter (\<lambda>r. NAME_1 r = ''Texas'' \<and> NAME_2 r = ''Travis'') (rows (USA drifting))"
    "clip drifting src (squeeze (map (\<lambda>r. transform_geom drifting c' t' (geometry r)) matches))
       = Inr data"
    by blast
  with o t c p have "\<exists>data. clip drifting ?tile93 ?extent = Inr data"
    by auto
  with run o t p e shifted unshifted show ?thesis by simp
qed

text \<open>
  C10, as amended. A run that completes stores the writer's bytes under \<open>nlcd.gif\<close>,
  replacing what was there and leaving every other file as it was; \<open>mimsave\<close> is called
  once, with that path, and the image tag shown last carries, as a base64 data URL from
  which they can be read back, the bytes then found under the same path. A run that
  raises leaves every file as it was and shows nothing.
\<close>

theorem main_writes_nlcd_gif:
  "(\<forall>s'. main W s start stop step state county = Inr s' \<longrightarrow>
      (\<exists>images held bytes before.
         gif_encode W \<lparr>frames = images, fps = 4, loop = 0\<rparr> = (held, bytes) \<and>
         files s' = (files s)(''nlcd.gif'' \<mapsto> bytes) \<and>
         files s' ''nlcd.gif'' = Some bytes \<and>
         (\<forall>path. path \<noteq> ''nlcd.gif'' \<longrightarrow> files s' path = files s path) \<and>
         trace s' = trace s @ before
           @ [PreparingGIF, Mimsave ''nlcd.gif'' images 4 0,
              Markdown (''<img src='' @ [CHR 0x22] @ ''data:image/gif;base64,''
                        @ b64encode bytes @ [CHR 0x22] @ '' width=60% height=60%>'')] \<and>
         b64decode (b64encode bytes) = bytes \<and>
         (\<forall>ev \<in> set before. \<exists>y c. ev = Downloading y c \<or> ev = RioOpen y)))
   \<and> (\<forall>e s'. main W s start stop step state county = Inl (e, s') \<longrightarrow>
         files s' = files s \<and>
         (\<exists>added. trace s' = trace s @ added \<and> (\<forall>ev \<in> set added. \<exists>y c. ev = Downloading y c \<or> ev = RioOpen y \<or> ev = PreparingGIF)))"
proof (intro conjI allI impI)
  fix s' assume "main W s start stop step state county = Inr s'"
  from main_effect [OF this] obtain years images held bytes where
    e: "gif_encode W \<lparr>frames = images, fps = 4, loop = 0\<rparr> = (held, bytes)" and
    f: "files s' = (files s)(''nlcd.gif'' \<mapsto> bytes)" and
    t: "trace s' = trace s
             @ concat (map (\<lambda>y. [Downloading y county, RioOpen y, RioOpen 1985]) years)
             @ [PreparingGIF, Mimsave ''nlcd.gif'' images 4 0, Markdown (img_tag (b64encode bytes))]"
    by blast
  let ?before = "concat (map (\<lambda>y. [Downloading y county, RioOpen y, RioOpen 1985]) years)"
  have q: "\<forall>ev \<in> set ?before. \<exists>y c. ev = Downloading y c \<or> ev = RioOpen y"
    by auto
  from t have t': "trace s' = trace s @ ?before
           @ [PreparingGIF, Mimsave ''nlcd.gif'' images 4 0,
              Markdown (''<img src='' @ [CHR 0x22] @ ''data:image/gif;base64,''
                        @ b64encode bytes @ [CHR 0x22] @ '' width=60% height=60%>'')]"
    by (simp add: img_tag_def)
  from f have f1: "files s' ''nlcd.gif'' = Some bytes"
    and f2: "\<forall>path. path \<noteq> ''nlcd.gif'' \<longrightarrow> files s' path = files s path"
    by simp_all
  have rt: "b64decode (b64encode bytes) = bytes" by (rule b64decode_encode)
  from e f f1 f2 t' rt q
  show "\<exists>images held bytes before.
         gif_encode W \<lparr>frames = images, fps = 4, loop = 0\<rparr> = (held, bytes) \<and>
         files s' = (files s)(''nlcd.gif'' \<mapsto> bytes) \<and>
         files s' ''nlcd.gif'' = Some bytes \<and>
         (\<forall>path. path \<noteq> ''nlcd.gif'' \<longrightarrow> files s' path = files s path) \<and>
         trace s' = trace s @ before
           @ [PreparingGIF, Mimsave ''nlcd.gif'' images 4 0,
              Markdown (''<img src='' @ [CHR 0x22] @ ''data:image/gif;base64,''
                        @ b64encode bytes @ [CHR 0x22] @ '' width=60% height=60%>'')] \<and>
         b64decode (b64encode bytes) = bytes \<and>
         (\<forall>ev \<in> set before. \<exists>y c. ev = Downloading y c \<or> ev = RioOpen y)"
    by blast
next
  fix e s' assume "main W s start stop step state county = Inl (e, s')"
  then show "files s' = files s" by (simp add: main_failure)
next
  fix e s' assume "main W s start stop step state county = Inl (e, s')"
  from main_failure [OF this]
  show "\<exists>added. trace s' = trace s @ added \<and>
          (\<forall>ev \<in> set added. \<exists>y c. ev = Downloading y c \<or> ev = RioOpen y \<or> ev = PreparingGIF)"
    by (rule conjunct2)
qed

text \<open>The theorem in a directory that already holds \<open>nlcd.gif\<close> and \<open>legend.jpg\<close>: a run
  that completes, and one without a network.\<close>

theorem main_writes_nlcd_gif_witness:
  "main changing used_state 1985 1994 8 ''Texas'' ''Travis''
     = Inr \<lparr>trace =
              [Downloading 1985 ''Travis'', RioOpen 1985, RioOpen 1985,
               Downloading 1993 ''Travis'', RioOpen 1993, RioOpen 1985,
               PreparingGIF,
               Mimsave ''nlcd.gif''
                 [[[[70, 107, 159, 255], [0, 0, 0, 0]], [[222, 197, 197, 255], [70, 107, 159, 255]]],
                  [[[70, 107, 159, 255], [0, 0, 0, 0]], [[222, 197, 197, 255], [222, 197, 197, 255]]]]
                 4 0,
               Markdown (''<img src='' @ [CHR 0x22] @ ''data:image/gif;base64,R0lGAg==''
                         @ [CHR 0x22] @ '' width=60% height=60%>'')],
            files = [''nlcd.gif'' \<mapsto> [71, 73, 70, 2], ''legend.jpg'' \<mapsto> [255, 216]]\<rparr>
   \<and> files used_state ''nlcd.gif'' = Some [1, 2, 3]
   \<and> b64decode ''R0lGAg=='' = [71, 73, 70, 2]
   \<and> main offline used_state 1985 1994 8 ''Texas'' ''Travis''
     = Inl (RasterioIOError,
            \<lparr>trace = [Downloading 1985 ''Travis''],
             files = [''nlcd.gif'' \<mapsto> [1, 2, 3], ''legend.jpg'' \<mapsto> [255, 216]]\<rparr>)"
proof -
  let ?s' = "\<lparr>trace =
              [Downloading 1985 ''Travis'', RioOpen 1985, RioOpen 1985,
               Downloading 1993 ''Travis'', RioOpen 1993, RioOpen 1985,
               PreparingGIF,
               Mimsave ''nlcd.gif''
                 [[[[70, 107, 159, 255], [0, 0, 0, 0]], [[222, 197, 197, 255], [70, 107, 159, 255]]],
                  [[[70, 107, 159, 255], [0, 0, 0, 0]], [[222, 197, 197, 255], [222, 197, 197, 255]]]]
                 4 0,
               Markdown (''<img src='' @ [CHR 0x22] @ ''data:image/gif;base64,R0lGAg==''
                         @ [CHR 0x22] @ '' width=60% height=60%>'')],
            files = [''nlcd.gif'' \<mapsto> [71, 73, 70, 2], ''legend.jpg'' \<mapsto> [255, 216 :: uint8]]\<rparr>"
  let ?f = "\<lparr>trace = [Downloading 1985 ''Travis''],
             files = [''nlcd.gif'' \<mapsto> [1, 2, 3], ''legend.jpg'' \<mapsto> [255, 216 :: uint8]]\<rparr>"
  have run: "main changing used_state 1985 1994 8 ''Texas'' ''Travis'' = Inr ?s'"
    by (simp add: pipeline_defs fixture_defs fun_upd_twist)
  have fail: "main offline used_state 1985 1994 8 ''Texas'' ''Travis'' = Inl (RasterioIOError, ?f)"
    by (simp add: pipeline_defs fixture_defs)
  note inst = main_writes_nlcd_gif [of changing used_state 1985 1994 8 "''Texas''" "''Travis''"]
  from inst [THEN conjunct1, rule_format, OF run] obtain bytes where
    w: "files ?s' = (files used_state)(''nlcd.gif'' \<mapsto> bytes)"
    and d: "b64decode (b64encode bytes) = bytes"
    by (elim exE conjE)
  from w have "bytes = [71, 73, 70, 2]"
    by (simp add: used_state_def fun_upd_twist fun_eq_iff split: if_splits)
  with d have dec: "b64decode ''R0lGAg=='' = [71, 73, 70, 2]"
    by (simp add: b64_char_def b64_alphabet_def)
  note inst2 = main_writes_nlcd_gif [of offline used_state 1985 1994 8 "''Texas''" "''Travis''"]
  from inst2 [THEN conjunct2, rule_format, OF fail]
  have "files ?f = files used_state" by (rule conjunct1)
  moreover have "files used_state ''nlcd.gif'' = Some [1, 2, 3]"
    by (simp add: used_state_def)
  ultimately show ?thesis using run fail dec by simp
qed

text \<open>C10 as stated fails: a run without a network raises at the first tile; it does
  not write \<open>nlcd.gif\<close>, which keeps its old bytes, and it shows nothing.\<close>

theorem failed_run_writes_nothing_counterexample:
  "main offline used_state 1985 1994 8 ''Texas'' ''Travis''
     = Inl (RasterioIOError,
            \<lparr>trace = [Downloading 1985 ''Travis''],
             files = [''nlcd.gif'' \<mapsto> [1, 2, 3], ''legend.jpg'' \<mapsto> [255, 216]]\<rparr>)"
  by (simp add: pipeline_defs fixture_defs)

section \<open>What the pipeline does not check\<close>

lemma assign_where_shape:
  assumes "assign_where img data cls v = Inr img'" and "map length img = map length data"
  shows "map length img' = map length data"
proof -
  from assms(1) obtain px where
    "img' = map2 (\<lambda>irow drow. map2 (\<lambda>p x. if x = cls then px else p) irow drow) img data"
    by (auto simp: assign_where_def split: sum.splits)
  with assms(2) show ?thesis by (simp only: map2_rows_shape)
qed

lemma palette_loop_shape:
  assumes "palette_loop items data img = Inr img'" and "map length img = map length data"
  shows "map length img' = map length data"
  using assms
proof (induction items arbitrary: img)
  case Nil
  then show ?case by simp
next
  case (Cons item items)
  obtain cls rgb where item: "item = (cls, rgb)" by (cases item)
  from Cons.prems(1) item obtain img1 where
    one: "assign_where img data cls (take 4 rgb) = Inr img1" and
    rest: "palette_loop items data img1 = Inr img'"
    by (auto split: sum.splits)
  from one Cons.prems(2) have "map length img1 = map length data"
    by (rule assign_where_shape)
  with rest show ?case by (rule Cons.IH)
qed

lemma recolor_shape: "recolor src data = Inr img \<Longrightarrow> map length img = map length data"
  by (auto simp: recolor_def recolor_with_def split: option.splits
           intro: palette_loop_shape zeros_shape)

text \<open>
  C5, as amended. The pipeline never compares frame dimensions and raises no error of
  its own for them. When the loop has produced its frames there is one per year, each
  with the shape of the grid clipped from that year's tile, and they go to \<open>mimsave\<close> as
  they are: if their shapes differ, the run ends there with the ValueError of the
  library; if they agree, the file is written.
\<close>

theorem frames_reach_encoder_unchecked:
  assumes "range_py start stop step = Inr years"
    and "years_loop W state county years (s, []) = Inr (s1, images)"
  shows "length images = length years
    \<and> (\<forall>k<length years. \<exists>src extent data.
          rio_open W (years ! k) = Some src \<and> clip W src extent = Inr data \<and>
          recolor src data = Inr (images ! k) \<and>
          map length (images ! k) = map length data)
    \<and> (\<not> same_shapes images \<longrightarrow>
          main W s start stop step state county = Inl (ValueError, emit PreparingGIF s1))
    \<and> (images \<noteq> [] \<and> same_shapes images \<longrightarrow>
          (\<exists>held bytes.
             gif_encode W \<lparr>frames = images, fps = 4, loop = 0\<rparr> = (held, bytes) \<and>
             main W s start stop step state county =
               Inr \<lparr>trace = trace s1 @ [PreparingGIF, Mimsave ''nlcd.gif'' images 4 0,
                                         Markdown (img_tag (b64encode bytes))],
                    files = (files s1)(''nlcd.gif'' \<mapsto> bytes)\<rparr>))"
proof -
  from years_loop_frames [OF assms(2), of s]
  have n: "length images = length years"
    and fr: "\<forall>k<length years. \<exists>src extent data.
          rio_open W (years ! k) = Some src \<and>
          get_extent W s state county = Inr (extent, emit (RioOpen 1985) s) \<and>
          clip W src extent = Inr data \<and>
          recolor src data = Inr (images ! k)"
    by auto
  have frames: "\<forall>k<length years. \<exists>src extent data.
          rio_open W (years ! k) = Some src \<and> clip W src extent = Inr data \<and>
          recolor src data = Inr (images ! k) \<and>
          map length (images ! k) = map length data"
  proof (intro allI impI)
    fix k assume "k < length years"
    with fr obtain src extent data where
      a: "rio_open W (years ! k) = Some src" "clip W src extent = Inr data"
        "recolor src data = Inr (images ! k)"
      by blast
    from a(3) have "map length (images ! k) = map length data" by (rule recolor_shape)
    with a show "\<exists>src extent data.
          rio_open W (years ! k) = Some src \<and> clip W src extent = Inr data \<and>
          recolor src data = Inr (images ! k) \<and>
          map length (images ! k) = map length data"
      by blast
  qed
  have run: "main W s start stop step state county = save_and_show W images s1"
    using assms by (simp add: main_def)
  have refuse: "save_and_show W images s1 = Inl (ValueError, emit PreparingGIF s1)"
    if "\<not> same_shapes images"
    using that by (auto simp: save_and_show_def mimsave_def)
  have accept: "\<exists>held bytes.
             gif_encode W \<lparr>frames = images, fps = 4, loop = 0\<rparr> = (held, bytes) \<and>
             save_and_show W images s1 =
               Inr \<lparr>trace = trace s1 @ [PreparingGIF, Mimsave ''nlcd.gif'' images 4 0,
                                         Markdown (img_tag (b64encode bytes))],
                    files = (files s1)(''nlcd.gif'' \<mapsto> bytes)\<rparr>"
    if "images \<noteq> [] \<and> same_shapes images"
    using that
    by (cases "gif_encode W \<lparr>frames = images, fps = 4, loop = 0\<rparr>")
       (simp add: save_and_show_def mimsave_def emit_def)
  from n frames run refuse accept show ?thesis by simp
qed

text \<open>The theorem on the world with tiles of different width, where \<open>mimsave\<close> raises, and on
  the world with tiles of one size, where the file is written.\<close>

theorem frames_reach_encoder_unchecked_witness:
  "range_py 1985 1994 8 = Inr [1985, 1993]
   \<and> years_loop uneven ''Texas'' ''Travis'' [1985, 1993] (initial_state, [])
       = Inr (\<lparr>trace = [Downloading 1985 ''Travis'', RioOpen 1985, RioOpen 1985,
                        Downloading 1993 ''Travis'', RioOpen 1993, RioOpen 1985],
               files = Map.empty\<rparr>,
              [[[[70, 107, 159, 255]]], [[[70, 107, 159, 255], [222, 197, 197, 255]]]])
   \<and> \<not> same_shapes [[[[70, 107, 159, 255]]], [[[70, 107, 159, 255], [222, 197, 197, 255]]]]
   \<and> main uneven initial_state 1985 1994 8 ''Texas'' ''Travis''
       = Inl (ValueError,
              \<lparr>trace = [Downloading 1985 ''Travis'', RioOpen 1985, RioOpen 1985,
                        Downloading 1993 ''Travis'', RioOpen 1993, RioOpen 1985,
                        PreparingGIF],
               files = Map.empty\<rparr>)
   \<and> years_loop changing ''Texas'' ''Travis'' [1985, 1993] (initial_state, [])
       = Inr (\<lparr>trace = [Downloading 1985 ''Travis'', RioOpen 1985, RioOpen 1985,
                        Downloading 1993 ''Travis'', RioOpen 1993, RioOpen 1985],
               files = Map.empty\<rparr>,
              [[[[70, 107, 159, 255], [0, 0, 0, 0]], [[222, 197, 197, 255], [70, 107, 159, 255]]],
               [[[70, 107, 159, 255], [0, 0, 0, 0]], [[222, 197, 197, 255], [222, 197, 197, 255]]]])
   \<and> main changing initial_state 1985 1994 8 ''Texas'' ''Travis''
       = Inr \<lparr>trace = [Downloading 1985 ''Travis'', RioOpen 1985, RioOpen 1985,
                       Downloading 1993 ''Travis'', RioOpen 1993, RioOpen 1985,
                       PreparingGIF,
                       Mimsave ''nlcd.gif''
                         [[[[70, 107, 159, 255], [0, 0, 0, 0]], [[222, 197, 197, 255], [70, 107, 159, 255]]],
                          [[[70, 107, 159, 255], [0, 0, 0, 0]], [[222, 197, 197, 255], [222, 197, 197, 255]]]]
                         4 0,
                       Markdown (img_tag ''R0lGAg=='')],
              files = [''nlcd.gif'' \<mapsto> [71, 73, 70, 2]]\<rparr>"
proof -
  let ?u = "[[[[70, 107, 159, 255]]], [[[70, 107, 159, 255], [222, 197, 197, 255]]]] :: image list"
  let ?c = "[[[[70, 107, 159, 255], [0, 0, 0, 0]], [[222, 197, 197, 255], [70, 107, 159, 255]]],
             [[[70, 107, 159, 255], [0, 0, 0, 0]], [[222, 197, 197, 255], [222, 197, 197, 255]]]]
              :: image list"
  let ?s1 = "\<lparr>trace = [Downloading 1985 ''Travis'', RioOpen 1985, RioOpen 1985,
                        Downloading 1993 ''Travis'', RioOpen 1993, RioOpen 1985],
               files = Map.empty\<rparr>"
  have r: "range_py 1985 1994 8 = Inr [1985, 1993]"
    by (simp add: range_py_def range_up.simps)
  have lu: "years_loop uneven ''Texas'' ''Travis'' [1985, 1993] (initial_state, []) = Inr (?s1, ?u)"
    by (simp add: pipeline_defs fixture_defs)
  have du: "\<not> same_shapes ?u"
    by (simp add: image_shape_def)
  from frames_reach_encoder_unchecked [OF r lu] du
  have mu: "main uneven initial_state 1985 1994 8 ''Texas'' ''Travis''
       = Inl (ValueError, emit PreparingGIF ?s1)"
    by blast
  have lc: "years_loop changing ''Texas'' ''Travis'' [1985, 1993] (initial_state, []) = Inr (?s1, ?c)"
    by (simp add: pipeline_defs fixture_defs)
  have dc: "?c \<noteq> [] \<and> same_shapes ?c"
    by (simp add: image_shape_def)
  have ec: "gif_encode changing \<lparr>frames = ?c, fps = 4, loop = 0\<rparr>
      = (\<lparr>frames = ?c, fps = 4, loop = 0\<rparr>, [71, 73, 70, 2])"
    by (simp add: fixture_defs)
  from frames_reach_encoder_unchecked [OF r lc] dc ec
  have mc: "main changing initial_state 1985 1994 8 ''Texas'' ''Travis''
       = Inr \<lparr>trace = trace ?s1 @ [PreparingGIF, Mimsave ''nlcd.gif'' ?c 4 0,
                                          Markdown (img_tag (b64encode [71, 73, 70, 2]))],
                     files = (files ?s1)(''nlcd.gif'' \<mapsto> [71, 73, 70, 2])\<rparr>"
    by auto
  from r lu du mu lc mc show ?thesis
    by (simp add: emit_def b64_char_def b64_alphabet_def)
qed

text \<open>C5 as stated fails: frames of 1 by 1 and 1 by 2 pixels are handed to \<open>mimsave\<close>, and
  the run ends with the ValueError raised there; no DimensionMismatchError exists.\<close>

theorem uneven_frames_counterexample:
  "years_loop uneven ''Texas'' ''Travis'' [1985, 1993] (initial_state, [])
       = Inr (\<lparr>trace = [Downloading 1985 ''Travis'', RioOpen 1985, RioOpen 1985,
                        Downloading 1993 ''Travis'', RioOpen 1993, RioOpen 1985],
               files = Map.empty\<rparr>,
              [[[[70, 107, 159, 255]]], [[[70, 107, 159, 255], [222, 197, 197, 255]]]])
   \<and> main uneven initial_state 1985 1994 8 ''Texas'' ''Travis''
       = Inl (ValueError,
              \<lparr>trace = [Downloading 1985 ''Travis'', RioOpen 1985, RioOpen 1985,
                        Downloading 1993 ''Travis'', RioOpen 1993, RioOpen 1985,
                        PreparingGIF],
               files = Map.empty\<rparr>)"
  by (simp add: pipeline_defs fixture_defs)

text \<open>
  C6, as amended. \<open>main\<close> does not validate its arguments. A zero step is rejected, by
  \<open>range\<close> itself (ValueError). With a positive step and start at or beyond stop there is
  no iteration and the empty frame list goes to the encoder. With a negative step the
  years start, start + step, ... above stop are processed in descending order.
\<close>

theorem main_does_not_validate:
  "(step = 0 \<longrightarrow> main W s start stop step state county = Inl (ValueError, s))
   \<and> (0 < step \<and> stop \<le> start \<longrightarrow>
        main W s start stop step state county = save_and_show W [] s)
   \<and> (step < 0 \<longrightarrow>
        (\<exists>years. range_py start stop step = Inr years \<and>
           (\<forall>k<length years. years ! k = start + int k * step) \<and>
           (\<forall>y\<in>set years. stop < y) \<and>
           start + int (length years) * step \<le> stop \<and>
           main W s start stop step state county =
             (case years_loop W state county years (s, []) of
                Inl e \<Rightarrow> Inl e
              | Inr (s', images) \<Rightarrow> save_and_show W images s')))"
proof (intro conjI impI)
  assume "step = 0"
  then show "main W s start stop step state county = Inl (ValueError, s)"
    by (simp add: main_def range_py_def)
next
  assume "0 < step \<and> stop \<le> start"
  then show "main W s start stop step state county = save_and_show W [] s"
    by (simp add: main_def range_py_def range_up_empty)
next
  assume neg: "step < 0"
  then have r: "range_py start stop step = Inr (range_down start stop step)"
    by (simp add: range_py_def)
  then have "main W s start stop step state county =
             (case years_loop W state county (range_down start stop step) (s, []) of
                Inl e \<Rightarrow> Inl e
              | Inr (s', images) \<Rightarrow> save_and_show W images s')"
    by (simp add: main_def)
  with r show "\<exists>years. range_py start stop step = Inr years \<and>
           (\<forall>k<length years. years ! k = start + int k * step) \<and>
           (\<forall>y\<in>set years. stop < y) \<and>
           start + int (length years) * step \<le> stop \<and>
           main W s start stop step state county =
             (case years_loop W state county years (s, []) of
                Inl e \<Rightarrow> Inl e
              | Inr (s', images) \<Rightarrow> save_and_show W images s')"
    using range_down_nth [of _ start stop step] range_down_above [of _ start stop step]
      range_down_end [OF neg, of start stop]
    by (intro exI [of _ "range_down start stop step"]) simp
qed

text \<open>The theorem at step 0, at start 1990 beyond stop 1985, and at step -4.\<close>

theorem main_does_not_validate_witness:
  "main fixture initial_state 1985 2023 0 ''Texas'' ''Travis'' = Inl (ValueError, initial_state)
   \<and> (0::int) < 1 \<and> (1985::int) \<le> 1990
   \<and> save_and_show fixture [] initial_state = Inl (ValueError, emit PreparingGIF initial_state)
   \<and> main fixture initial_state 1990 1985 1 ''Texas'' ''Travis''
       = Inl (ValueError, emit PreparingGIF initial_state)
   \<and> (-4::int) < 0
   \<and> range_py 1993 1985 (-4) = Inr [1993, 1989]
   \<and> main fixture initial_state 1993 1985 (-4) ''Texas'' ''Travis''
     = Inr \<lparr>trace =
              [Downloading 1993 ''Travis'', RioOpen 1993, RioOpen 1985,
               Downloading 1989 ''Travis'', RioOpen 1989, RioOpen 1985,
               PreparingGIF,
               Mimsave ''nlcd.gif''
                 [[[[70, 107, 159, 255], [0, 0, 0, 0]], [[222, 197, 197, 255], [70, 107, 159, 255]]],
                  [[[70, 107, 159, 255], [0, 0, 0, 0]], [[222, 197, 197, 255], [70, 107, 159, 255]]]]
                 4 0,
               Markdown (img_tag ''R0lGAQ=='')],
            files = [''nlcd.gif'' \<mapsto> [71, 73, 70, 1]]\<rparr>"
proof -
  have a: "main fixture initial_state 1985 2023 0 ''Texas'' ''Travis'' = Inl (ValueError, initial_state)"
    using main_does_not_validate [of 0 fixture initial_state 1985 2023 "''Texas''" "''Travis''"]
    by simp
  have sv: "save_and_show fixture [] initial_state = Inl (ValueError, emit PreparingGIF initial_state)"
    by (simp add: save_and_show_def mimsave_def)
  have b: "main fixture initial_state 1990 1985 1 ''Texas'' ''Travis''
       = Inl (ValueError, emit PreparingGIF initial_state)"
    using main_does_not_validate [of 1 fixture initial_state 1990 1985 "''Texas''" "''Travis''"] sv
    by simp
  have r: "range_py 1993 1985 (-4) = Inr [1993, 1989]"
    by (simp add: range_py_def range_down.simps)
  have l: "(case years_loop fixture ''Texas'' ''Travis'' [1993, 1989] (initial_state, []) of
                Inl e \<Rightarrow> Inl e
              | Inr (s', images) \<Rightarrow> save_and_show fixture images s')
     = Inr \<lparr>trace =
              [Downloading 1993 ''Travis'', RioOpen 1993, RioOpen 1985,
               Downloading 1989 ''Travis'', RioOpen 1989, RioOpen 1985,
               PreparingGIF,
               Mimsave ''nlcd.gif''
                 [[[[70, 107, 159, 255], [0, 0, 0, 0]], [[222, 197, 197, 255], [70, 107, 159, 255]]],
                  [[[70, 107, 159, 255], [0, 0, 0, 0]], [[222, 197, 197, 255], [70, 107, 159, 255]]]]
                 4 0,
               Markdown (img_tag ''R0lGAQ=='')],
            files = [''nlcd.gif'' \<mapsto> [71, 73, 70, 1]]\<rparr>"
    by (simp add: pipeline_defs fixture_defs)
  have neg: "(-4::int) < 0" by simp
  from main_does_not_validate [of "-4" fixture initial_state 1993 1985 "''Texas''" "''Travis''"] neg
  obtain years where "range_py 1993 1985 (-4) = Inr years"
    and "main fixture initial_state 1993 1985 (-4) ''Texas'' ''Travis'' =
             (case years_loop fixture ''Texas'' ''Travis'' years (initial_state, []) of
                Inl e \<Rightarrow> Inl e
              | Inr (s', images) \<Rightarrow> save_and_show fixture images s')"
    by blast
  with r l have c: "main fixture initial_state 1993 1985 (-4) ''Texas'' ''Travis''
     = Inr \<lparr>trace =
              [Downloading 1993 ''Travis'', RioOpen 1993, RioOpen 1985,
               Downloading 1989 ''Travis'', RioOpen 1989, RioOpen 1985,
               PreparingGIF,
               Mimsave ''nlcd.gif''
                 [[[[70, 107, 159, 255], [0, 0, 0, 0]], [[222, 197, 197, 255], [70, 107, 159, 255]]],
                  [[[70, 107, 159, 255], [0, 0, 0, 0]], [[222, 197, 197, 255], [70, 107, 159, 255]]]]
                 4 0,
               Markdown (img_tag ''R0lGAQ=='')],
            files = [''nlcd.gif'' \<mapsto> [71, 73, 70, 1]]\<rparr>"
    by simp
  from a sv b r c show ?thesis by simp
qed

text \<open>C6 as stated fails: with start 1993, stop 1985 and step -4 the run is not
  rejected; it processes 1993 and 1989 and writes the animation.\<close>

theorem descending_run_counterexample:
  "main fixture initial_state 1993 1985 (-4) ''Texas'' ''Travis''
     = Inr \<lparr>trace =
              [Downloading 1993 ''Travis'', RioOpen 1993, RioOpen 1985,
               Downloading 1989 ''Travis'', RioOpen 1989, RioOpen 1985,
               PreparingGIF,
               Mimsave ''nlcd.gif''
                 [[[[70, 107, 159, 255], [0, 0, 0, 0]], [[222, 197, 197, 255], [70, 107, 159, 255]]],
                  [[[70, 107, 159, 255], [0, 0, 0, 0]], [[222, 197, 197, 255], [70, 107, 159, 255]]]]
                 4 0,
               Markdown (img_tag ''R0lGAQ=='')],
            files = [''nlcd.gif'' \<mapsto> [71, 73, 70, 1]]\<rparr>"
  by (simp add: pipeline_defs fixture_defs)

text \<open>
  C8, as amended. For start equal to stop there is no iteration and the run fails with
  ValueError instead of producing an animation without frames: for a step other than 0
  the empty frame list goes to \<open>mimsave\<close>, which refuses it, and for step 0 \<open>range\<close> itself
  raises. No file is written.
\<close>

theorem main_empty_range:
  "(step \<noteq> 0 \<longrightarrow>
      range_py year year step = Inr [] \<and>
      years_loop W state county [] (s, []) = Inr (s, []) \<and>
      main W s year year step state county = Inl (ValueError, emit PreparingGIF s) \<and>
      files (emit PreparingGIF s) = files s)
   \<and> (step = 0 \<longrightarrow> main W s year year step state county = Inl (ValueError, s))"
proof (intro conjI impI)
  assume "step \<noteq> 0"
  then show r: "range_py year year step = Inr []"
    by (simp add: range_py_def range_up_empty range_down_empty)
  then show "main W s year year step state county = Inl (ValueError, emit PreparingGIF s)"
    by (simp add: main_def save_and_show_def mimsave_def)
next
  show "years_loop W state county [] (s, []) = Inr (s, [])" by simp
next
  show "files (emit PreparingGIF s) = files s" by (simp add: emit_def)
next
  assume "step = 0"
  then show "main W s year year step state county = Inl (ValueError, s)"
    by (simp add: main_def range_py_def)
qed

text \<open>The theorem at steps 3 and 0 in a directory that holds an earlier animation.\<close>

theorem main_empty_range_witness:
  "(3::int) \<noteq> 0
   \<and> range_py 2000 2000 3 = Inr []
   \<and> main fixture used_state 2000 2000 3 ''Texas'' ''Travis''
       = Inl (ValueError,
              \<lparr>trace = [PreparingGIF],
               files = [''nlcd.gif'' \<mapsto> [1, 2, 3], ''legend.jpg'' \<mapsto> [255, 216]]\<rparr>)
   \<and> main fixture used_state 2000 2000 0 ''Texas'' ''Travis'' = Inl (ValueError, used_state)"
proof -
  have n: "(3::int) \<noteq> 0" by simp
  from main_empty_range [of 3 2000 fixture "''Texas''" "''Travis''" used_state] n
  have a: "range_py 2000 2000 3 = Inr []"
    and b: "main fixture used_state 2000 2000 3 ''Texas'' ''Travis''
              = Inl (ValueError, emit PreparingGIF used_state)"
    by blast+
  from main_empty_range [of 0 2000 fixture "''Texas''" "''Travis''" used_state]
  have c: "main fixture used_state 2000 2000 0 ''Texas'' ''Travis'' = Inl (ValueError, used_state)"
    by blast
  from n a b c show ?thesis by (simp add: emit_def used_state_def)
qed

text \<open>C8 as stated fails for every step from 1 on: with start and stop 2000 the run ends
  with ValueError in \<open>mimsave\<close> and no animation is produced.\<close>

theorem empty_range_fails_counterexample:
  "main fixture initial_state 2000 2000 1 ''Texas'' ''Travis''
     = Inl (ValueError, \<lparr>trace = [PreparingGIF], files = Map.empty\<rparr>)
   \<and> main fixture initial_state 2000 2000 8 ''Texas'' ''Travis''
     = Inl (ValueError, \<lparr>trace = [PreparingGIF], files = Map.empty\<rparr>)"
  by (simp add: pipeline_defs fixture_defs)

end
